theory Spec2Isabelle
  imports Complex_Main "HOL-Library.Word" "HOL-Library.Log_Nat"
begin

section \<open>JavaScript numbers\<close>

text \<open>
  A JavaScript number is an IEEE 754 double. The model keeps the exact value of a finite
  double as a rational. \<open>NonFinite\<close> stands for \<^verbatim>\<open>Infinity\<close>, \<^verbatim>\<open>-Infinity\<close> and
  \<^verbatim>\<open>NaN\<close>: none of the operations below turns one of them back into a finite number,
  so the three are kept as one value. The two zeros are one value as well.
\<close>

datatype number = Finite rat | NonFinite

text \<open>The number of binary digits of a positive integer.\<close>

function bitLength :: "int \<Rightarrow> int" where
  "bitLength n = (if n \<le> 0 then 0 else 1 + bitLength (n div 2))"
  by pat_completeness auto
termination by (relation "measure nat") auto

declare bitLength.simps [simp del]

text \<open>The binary exponent \<open>e\<close> of a positive rational \<open>a\<close>: \<open>2\<^sup>e \<le> a < 2\<^sup>e\<^sup>+\<^sup>1\<close>.\<close>

definition ilog2 :: "rat \<Rightarrow> int" where
  "ilog2 a =
     (if 1 \<le> a then bitLength \<lfloor>a\<rfloor> - 1
      else - bitLength (\<lceil>1 / a\<rceil> - 1))"

text \<open>The nearest integer, a tie going to the even one.\<close>

definition roundEven :: "rat \<Rightarrow> int" where
  "roundEven m =
     (let f = \<lfloor>m\<rfloor>; d = m - of_int f
      in if d < 1 / 2 then f else if 1 / 2 < d then f + 1 else if even f then f else f + 1)"

text \<open>
  The double nearest to a rational, as every arithmetic operation and every numeric
  literal rounds (round to nearest, ties to even): 53 significant binary digits in the
  normal range, whole multiples of \<open>2\<^sup>-\<^sup>1\<^sup>0\<^sup>7\<^sup>4\<close> below it, and infinity once the rounded
  value reaches \<open>2\<^sup>1\<^sup>0\<^sup>2\<^sup>4\<close>.
\<close>

definition nearestDouble :: "rat \<Rightarrow> number" where
  "nearestDouble x =
     (if x = 0 then Finite 0
      else
        (let q = max (ilog2 \<bar>x\<bar> - 52) (- 1074);
             y = of_int (roundEven (x / 2 powi q)) * 2 powi q
         in if \<bar>y\<bar> < 2 ^ 1024 then Finite y else NonFinite))"

text \<open>
  \<^verbatim>\<open>*\<close>, \<^verbatim>\<open>+\<close> and \<^verbatim>\<open>-\<close> on numbers, and \<^verbatim>\<open>/\<close> by a finite number: the exact result,
  rounded to the nearest double.
\<close>

fun numMul :: "number \<Rightarrow> number \<Rightarrow> number" where
  "numMul (Finite x) (Finite y) = nearestDouble (x * y)"
| "numMul _ _ = NonFinite"

fun numAdd :: "number \<Rightarrow> number \<Rightarrow> number" where
  "numAdd (Finite x) (Finite y) = nearestDouble (x + y)"
| "numAdd _ _ = NonFinite"

fun numSub :: "number \<Rightarrow> number \<Rightarrow> number" where
  "numSub (Finite x) (Finite y) = nearestDouble (x - y)"
| "numSub _ _ = NonFinite"

fun numDiv :: "number \<Rightarrow> rat \<Rightarrow> number" where
  "numDiv (Finite x) d = (if d = 0 then NonFinite else nearestDouble (x / d))"
| "numDiv NonFinite d = NonFinite"

text \<open>
  \<^verbatim>\<open>Math.round\<close>: the nearest integer, a tie going up. The result is computed from the
  exact value of its argument and is a double whenever the argument is one.
\<close>

fun Math_round :: "number \<Rightarrow> number" where
  "Math_round (Finite x) = Finite (of_int \<lfloor>x + 1 / 2\<rfloor>)"
| "Math_round NonFinite = NonFinite"

text \<open>\<^verbatim>\<open>parseFloat\<close> of a decimal text: the double nearest to the value \<open>r\<close> it writes.\<close>

definition parseFloat :: "rat \<Rightarrow> number" where
  "parseFloat r = nearestDouble r"

section \<open>Fee calculator\<close>

text \<open>
  \<^verbatim>\<open>calculateBountyFees\<close> of \<^verbatim>\<open>server/storage.ts\<close>, as listed in
  \<^verbatim>\<open>docs/SECURITY_AUDIT_FINDINGS.md\<close>. The literal \<^verbatim>\<open>0.025\<close> is the double nearest to
  25/1000; \<^verbatim>\<open>100000000\<close> is a double itself.
\<close>

definition roundTo8 :: "number \<Rightarrow> number" where
  "roundTo8 num = numDiv (Math_round (numMul num (Finite 100000000))) 100000000"

record fee_breakdown =
  baseBountyAmount :: number
  clientFeeAmount :: number
  contributorFeeAmount :: number
  totalPlatformFee :: number
  totalPaidByClient :: number
  contributorPayout :: number

definition calculateBountyFees :: "number \<Rightarrow> fee_breakdown" where
  "calculateBountyFees base =
     (let clientFee = roundTo8 (numMul base (nearestDouble (25 / 1000)));
          contributorFee = roundTo8 (numMul base (nearestDouble (25 / 1000)));
          totalFee = roundTo8 (numAdd clientFee contributorFee);
          totalPaid = roundTo8 (numAdd base clientFee);
          payout = roundTo8 (numSub base contributorFee)
      in \<lparr> baseBountyAmount = roundTo8 base,
           clientFeeAmount = clientFee,
           contributorFeeAmount = contributorFee,
           totalPlatformFee = totalFee,
           totalPaidByClient = totalPaid,
           contributorPayout = payout \<rparr>)"

text \<open>
  The number that holds a decimal amount of \<open>k\<close> units of \<open>10\<^sup>-\<^sup>8\<close>: the double nearest to
  \<open>k / 10\<^sup>8\<close>, which is what \<^verbatim>\<open>parseFloat\<close> reads from its text and what prints as that
  text again.
\<close>

definition decimal8 :: "int \<Rightarrow> number" where
  "decimal8 k = nearestDouble (of_int k / 100000000)"


section \<open>Persistent records\<close>

text \<open>
  The \<^verbatim>\<open>community_bounties\<close> table (migrations 0020, 0022 and 0023): one row per bounty.
  Decimal columns are rationals, nullable columns are options, timestamps are
  milliseconds. The fee columns carry the prefix \<open>b_\<close> to keep them apart from
  the fields of \<open>fee_breakdown\<close>.
\<close>

datatype bounty_status =
  pending_payment | funded | claimed | completed | refunded | expired | failed_verification

record community_bounty =
  bountyId :: nat
  githubRepoOwner :: string
  githubRepoName :: string
  githubIssueNumber :: nat
  githubInstallationId :: "string option"
  creatorUserId :: "nat option"
  amount :: rat
  currency :: string
  b_baseBountyAmount :: "rat option"
  b_clientFeeAmount :: "rat option"
  b_contributorFeeAmount :: "rat option"
  b_totalPaidByClient :: "rat option"
  expiresAt :: "nat option"
  status :: bounty_status
  paymentStatus :: string
  paymentMethod :: "string option"
  escrowTxHash :: "string option"
  escrowDepositedAt :: "nat option"
  blockchainBountyId :: "nat option"
  claimedByUserId :: "nat option"
  claimedByGithubUsername :: "string option"
  claimedPrNumber :: "nat option"
  claimedPrUrl :: "string option"
  claimedAt :: "nat option"
  payoutTxHash :: "string option"
  payoutExecutedAt :: "nat option"
  payoutRecipientAddress :: "string option"

record user =
  userId :: nat
  githubUsername :: "string option"
  xdcWalletAddress :: "string option"

text \<open>
  The row that the relayer hands to \<^verbatim>\<open>recordPayout\<close>. Its amounts are the numbers of
  the fee breakdown, which the relayer writes as text with \<^verbatim>\<open>toString()\<close>.
\<close>

record payout =
  repositoryGithubId :: string
  issueNumber :: nat
  contributorGithubUsername :: string
  contributorUserId :: "nat option"
  contributorWalletAddress :: string
  p_baseBountyAmount :: number
  p_clientFeeAmount :: number
  p_contributorFeeAmount :: number
  p_totalPlatformFee :: number
  p_contributorPayout :: number
  p_currency :: string
  transactionHash :: string

datatype delivery_status = processing | delivery_completed | delivery_failed | ignored

record webhook_delivery =
  deliveryId :: string
  eventType :: string
  eventAction :: "string option"
  repositoryId :: "string option"
  repositoryName :: "string option"
  installationId :: "string option"
  deliveryStatus :: delivery_status
  errorMessage :: "string option"

record store =
  communityBounties :: "community_bounty list"
  payouts :: "payout list"
  webhookDeliveries :: "webhook_delivery list"
  users :: "user list"

text \<open>
  A call into the database, the chain or GitHub either returns a value or raises; the
  \<^verbatim>\<open>try\<close>/\<^verbatim>\<open>catch\<close> blocks of the source branch on that.
\<close>

datatype 'a outcome = Returns 'a | Throws string

text \<open>JavaScript truthiness of a nullable number and of a nullable string.\<close>

definition falsyNum :: "nat option \<Rightarrow> bool" where
  "falsyNum n = (n = None \<or> n = Some 0)"

definition falsyStr :: "string option \<Rightarrow> bool" where
  "falsyStr x = (x = None \<or> x = Some [])"

section \<open>Bounty store\<close>

text \<open>
  Modelled from the spec: \<^verbatim>\<open>storage.getCommunityBounty\<close>, \<^verbatim>\<open>storage.getUserById\<close> and
  \<^verbatim>\<open>storage.getUserByGithubUsername\<close> belong to \<^verbatim>\<open>server/storage.ts\<close>, which is not
  among the sources. Section 3 of the specification gives every record its identity;
  each lookup returns the row with that identity, or nothing.
\<close>

definition getCommunityBounty :: "store \<Rightarrow> nat \<Rightarrow> community_bounty option" where
  "getCommunityBounty s i = find (\<lambda>b. bountyId b = i) (communityBounties s)"

definition getUserById :: "store \<Rightarrow> nat \<Rightarrow> user option" where
  "getUserById s i = find (\<lambda>u. userId u = i) (users s)"

definition getUserByGithubUsername :: "store \<Rightarrow> string \<Rightarrow> user option" where
  "getUserByGithubUsername s name = find (\<lambda>u. githubUsername u = Some name) (users s)"

text \<open>
  \<^verbatim>\<open>UPDATE community_bounties SET ... WHERE id = i\<close>: the columns named by the caller
  are set on every row with that id, the other rows stay.
\<close>

definition setBounty ::
  "nat \<Rightarrow> (community_bounty \<Rightarrow> community_bounty) \<Rightarrow> community_bounty list \<Rightarrow> community_bounty list" where
  "setBounty i f rows = map (\<lambda>b. if bountyId b = i then f b else b) rows"

text \<open>
  Modelled from the spec: \<^verbatim>\<open>storage.updateCommunityBounty(id, fields)\<close> belongs to
  \<^verbatim>\<open>server/storage.ts\<close>, which is not among the sources. Section 4.2 of the
  specification: a store operation is a single transaction that records the given fields
  on the bounty. The flag says whether the database raises on this write; the callers'
  \<^verbatim>\<open>catch\<close> blocks decide what happens then.
\<close>

definition updateCommunityBounty ::
  "bool \<Rightarrow> store \<Rightarrow> nat \<Rightarrow> (community_bounty \<Rightarrow> community_bounty) \<Rightarrow> store outcome" where
  "updateCommunityBounty dbRaises s i f =
     (if dbRaises then Throws ''database error''
      else Returns (s\<lparr>communityBounties := setBounty i f (communityBounties s)\<rparr>))"

subsection \<open>Atomic claim\<close>

datatype claim_error =
  BountyNotFound
  | BountyNotClaimable bounty_status
  | ForeignKeyViolation

datatype payout_error = PayoutAlreadyRecorded

text \<open>
  \<^verbatim>\<open>claimCommunityBountyAtomic\<close>: one transaction that locks the row
  (\<^verbatim>\<open>SELECT ... FOR UPDATE\<close>), checks the status and writes the claim. The row lock
  makes the transaction a single step with respect to any other claim of the same row,
  so the model is one function from the store before to the store after; a raised error
  rolls the transaction back and the store is the one before. The section on two
  concurrent claims below models the lock itself and relates it to this function.
  The column \<^verbatim>\<open>claimed_by_user_id\<close> references \<^verbatim>\<open>users(id)\<close> (migration 0020), so the
  \<^verbatim>\<open>UPDATE\<close> raises when the claimer is not the id of a user.
\<close>

definition claimFields ::
  "nat \<Rightarrow> string \<Rightarrow> nat \<Rightarrow> string \<Rightarrow> nat \<Rightarrow> community_bounty \<Rightarrow> community_bounty" where
  "claimFields uid ghName prNumber prUrl now b =
     b\<lparr> status := claimed,
        claimedByUserId := Some uid,
        claimedByGithubUsername := Some ghName,
        claimedPrNumber := Some prNumber,
        claimedPrUrl := Some prUrl,
        claimedAt := Some now \<rparr>"

definition claimCommunityBountyAtomic ::
  "store \<Rightarrow> nat \<Rightarrow> nat \<Rightarrow> string \<Rightarrow> nat \<Rightarrow> string \<Rightarrow> nat
     \<Rightarrow> store \<times> (claim_error + community_bounty)" where
  "claimCommunityBountyAtomic s bid uid ghName prNumber prUrl now =
     (case getCommunityBounty s bid of
        None \<Rightarrow> (s, Inl BountyNotFound)
      | Some bounty \<Rightarrow>
          if status bounty \<noteq> funded then (s, Inl (BountyNotClaimable (status bounty)))
          else if getUserById s uid = None then (s, Inl ForeignKeyViolation)
          else
            (s\<lparr>communityBounties :=
                 setBounty bid (claimFields uid ghName prNumber prUrl now) (communityBounties s)\<rparr>,
             Inr (claimFields uid ghName prNumber prUrl now bounty)))"

subsection \<open>Webhook deliveries\<close>

definition deliveryRecorded :: "store \<Rightarrow> string \<Rightarrow> bool" where
  "deliveryRecorded s d = (\<exists>r \<in> set (webhookDeliveries s). deliveryId r = d)"

text \<open>
  \<^verbatim>\<open>recordWebhookDelivery\<close>: \<^verbatim>\<open>INSERT ... ON CONFLICT DO NOTHING RETURNING id\<close>.
  The first argument says whether the insert raises; the \<^verbatim>\<open>catch\<close> block then
  returns \<^verbatim>\<open>true\<close> ("fail open").
\<close>

definition recordWebhookDelivery ::
  "bool \<Rightarrow> store \<Rightarrow> string \<Rightarrow> string \<Rightarrow> string option \<Rightarrow> string option \<Rightarrow> string option
     \<Rightarrow> store \<times> bool" where
  "recordWebhookDelivery dbRaises s d evType evAction repoId instId =
     (if dbRaises then (s, True)
      else if deliveryRecorded s d then (s, False)
      else (s\<lparr>webhookDeliveries := webhookDeliveries s @
                [\<lparr> deliveryId = d, eventType = evType, eventAction = evAction,
                   repositoryId = repoId, repositoryName = None, installationId = instId,
                   deliveryStatus = processing, errorMessage = None \<rparr>]\<rparr>, True))"

text \<open>
  Both markers catch and log a database error themselves. The time stamps of a delivery
  row (\<^verbatim>\<open>received_at\<close>, \<^verbatim>\<open>processed_at\<close>) are left out of the model.
\<close>

definition markWebhookDeliveryCompleted :: "store \<Rightarrow> string \<Rightarrow> store" where
  "markWebhookDeliveryCompleted s d =
     s\<lparr>webhookDeliveries :=
         map (\<lambda>r. if deliveryId r = d then r\<lparr>deliveryStatus := delivery_completed\<rparr> else r)
           (webhookDeliveries s)\<rparr>"

definition markWebhookDeliveryFailed :: "store \<Rightarrow> string \<Rightarrow> string \<Rightarrow> store" where
  "markWebhookDeliveryFailed s d msg =
     s\<lparr>webhookDeliveries :=
         map (\<lambda>r. if deliveryId r = d
                  then r\<lparr>deliveryStatus := delivery_failed, errorMessage := Some msg\<rparr> else r)
           (webhookDeliveries s)\<rparr>"

subsection \<open>Payouts\<close>

definition payoutRecorded :: "store \<Rightarrow> string \<Rightarrow> nat \<Rightarrow> bool" where
  "payoutRecorded s repo issue =
     (\<exists>p \<in> set (payouts s). repositoryGithubId p = repo \<and> issueNumber p = issue)"

definition getPayoutByRepoAndIssue :: "store \<Rightarrow> string \<Rightarrow> nat \<Rightarrow> payout option" where
  "getPayoutByRepoAndIssue s repo issue =
     find (\<lambda>p. repositoryGithubId p = repo \<and> issueNumber p = issue) (payouts s)"

text \<open>
  \<^verbatim>\<open>recordPayout\<close>: a plain insert; the unique constraint
  \<^verbatim>\<open>uq_payouts_repo_issue\<close> on (repository_github_id, issue_number) makes a second
  insert with the same key raise, which the method turns into the error
  "Payout already recorded for this issue".
\<close>

definition recordPayout :: "store \<Rightarrow> payout \<Rightarrow> store \<times> (payout_error + payout)" where
  "recordPayout s p =
     (if payoutRecorded s (repositoryGithubId p) (issueNumber p)
      then (s, Inl PayoutAlreadyRecorded)
      else (s\<lparr>payouts := payouts s @ [p]\<rparr>, Inr p))"

section \<open>PR verifier\<close>

record verification =
  verified :: bool
  error :: "string option"

text \<open>What GitHub answers when asked for a pull request.\<close>

datatype pr_lookup =
  Unreachable string
  | NoSuchPR
  | PullRequest bool "nat list"

text \<open>
  Modelled from the spec: \<^verbatim>\<open>verifyPRMergedAndClosesIssue\<close> lives in
  \<^verbatim>\<open>server/github.ts\<close>, which is not among the sources. Section 4.4 of the
  specification: the checks run in order (the PR exists, it is merged, its linked issues
  include the target issue); a failed check is returned as \<^verbatim>\<open>verified = false\<close> with a
  reason; a transient network or authentication failure is signalled distinctly. The
  caller reads only \<^verbatim>\<open>verified\<close> and \<^verbatim>\<open>error\<close> of a returned value, so the
  distinct signal is a raised exception. \<open>PullRequest merged closes\<close> carries the merged
  flag and the issue numbers the PR closes.
\<close>

definition verifyPRMergedAndClosesIssue ::
  "(string \<Rightarrow> string \<Rightarrow> nat \<Rightarrow> string \<Rightarrow> pr_lookup)
     \<Rightarrow> string \<Rightarrow> string \<Rightarrow> nat \<Rightarrow> nat \<Rightarrow> string \<Rightarrow> verification outcome" where
  "verifyPRMergedAndClosesIssue gh repoOwner repoName prNumber issue instId =
     (case gh repoOwner repoName prNumber instId of
        Unreachable msg \<Rightarrow> Throws msg
      | NoSuchPR \<Rightarrow> Returns \<lparr> verified = False, error = Some ''PR not found'' \<rparr>
      | PullRequest merged closes \<Rightarrow>
          if \<not> merged then Returns \<lparr> verified = False, error = Some ''PR is not merged'' \<rparr>
          else if issue \<notin> set closes
            then Returns \<lparr> verified = False, error = Some ''PR does not close the issue'' \<rparr>
          else Returns \<lparr> verified = True, error = None \<rparr>)"

section \<open>Relayer\<close>

record completion =
  txHash :: string
  blockNumber :: nat

text \<open>
  The collaborators of one relayer run: the verifier, the chain call
  \<^verbatim>\<open>blockchain.completeCommunityBounty\<close>, whether a database write raises, and the clock.
\<close>

record relayer_env =
  verify :: "string \<Rightarrow> string \<Rightarrow> nat \<Rightarrow> nat \<Rightarrow> string \<Rightarrow> verification outcome"
  completeCommunityBounty :: "nat option \<Rightarrow> string \<Rightarrow> completion outcome"
  dbRaises :: bool
  relayerNow :: nat

text \<open>One invocation of the on-chain completion: the on-chain id and the recipient.\<close>

type_synonym ledger_call = "nat option \<times> string"

definition markFailedVerification :: "relayer_env \<Rightarrow> store \<Rightarrow> nat \<Rightarrow> store" where
  "markFailedVerification env s bid =
     (case updateCommunityBounty (dbRaises env) s bid (\<lambda>b. b\<lparr>status := failed_verification\<rparr>) of
        Throws msg \<Rightarrow> s
      | Returns s' \<Rightarrow> s')"

definition payoutRow :: "community_bounty \<Rightarrow> string \<Rightarrow> string \<Rightarrow> completion \<Rightarrow> payout" where
  "payoutRow bounty claimer wallet result =
     (let fees = calculateBountyFees
            (parseFloat (case b_baseBountyAmount bounty of Some base \<Rightarrow> base | None \<Rightarrow> amount bounty))
      in \<lparr> repositoryGithubId = ''community-'' @ githubRepoOwner bounty @ ''-'' @ githubRepoName bounty,
           issueNumber = githubIssueNumber bounty,
           contributorGithubUsername = claimer,
           contributorUserId = claimedByUserId bounty,
           contributorWalletAddress = wallet,
           p_baseBountyAmount = baseBountyAmount fees,
           p_clientFeeAmount = clientFeeAmount fees,
           p_contributorFeeAmount = contributorFeeAmount fees,
           p_totalPlatformFee = totalPlatformFee fees,
           p_contributorPayout = contributorPayout fees,
           p_currency = currency bounty,
           transactionHash = txHash result \<rparr>)"

text \<open>
  \<^verbatim>\<open>processClaimedBounty\<close>. The result is the store afterwards and the on-chain
  completions invoked. Every path through the outer \<^verbatim>\<open>catch\<close> leaves the store as
  it was when the exception was raised.
\<close>

definition processClaimedBounty :: "relayer_env \<Rightarrow> store \<Rightarrow> nat \<Rightarrow> store \<times> ledger_call list" where
  "processClaimedBounty env s bid =
     (case getCommunityBounty s bid of
        None \<Rightarrow> (s, [])
      | Some bounty \<Rightarrow>
          if status bounty \<noteq> claimed then (s, [])
          else if falsyNum (claimedPrNumber bounty) \<or> falsyStr (claimedByGithubUsername bounty)
                  \<or> githubRepoOwner bounty = [] \<or> githubRepoName bounty = []
            then (markFailedVerification env s bid, [])
          else if falsyStr (githubInstallationId bounty)
            then (markFailedVerification env s bid, [])
          else
            (case verify env (githubRepoOwner bounty) (githubRepoName bounty)
                    (the (claimedPrNumber bounty)) (githubIssueNumber bounty)
                    (the (githubInstallationId bounty)) of
               Throws msg \<Rightarrow> (s, [])
             | Returns verification \<Rightarrow>
                 if \<not> verified verification then (markFailedVerification env s bid, [])
                 else
                   (case getUserByGithubUsername s (the (claimedByGithubUsername bounty)) of
                      None \<Rightarrow> (markFailedVerification env s bid, [])
                    | Some contributor \<Rightarrow>
                        if falsyStr (xdcWalletAddress contributor)
                          then (markFailedVerification env s bid, [])
                        else
                          (let wallet = the (xdcWalletAddress contributor);
                               call = (blockchainBountyId bounty, wallet)
                           in case completeCommunityBounty env (blockchainBountyId bounty) wallet of
                                Throws msg \<Rightarrow> (s, [call])
                              | Returns result \<Rightarrow>
                                  (let s1 = fst (recordPayout s
                                         (payoutRow bounty (the (claimedByGithubUsername bounty)) wallet result))
                                   in case updateCommunityBounty (dbRaises env) s1 bid
                                          (\<lambda>b. b\<lparr> status := completed,
                                                    payoutTxHash := Some (txHash result),
                                                    payoutExecutedAt := Some (relayerNow env),
                                                    payoutRecipientAddress := Some wallet \<rparr>) of
                                        Throws msg \<Rightarrow> (s1, [call])
                                      | Returns s2 \<Rightarrow> (s2, [call]))))))"

text \<open>
  Modelled from the spec: \<^verbatim>\<open>storage.getClaimedCommunityBounties\<close> belongs to
  \<^verbatim>\<open>server/storage.ts\<close>, which is not among the sources. Section 4.7 of the
  specification: all bounties in status \<open>claimed\<close>, ordered by claim time, oldest first.
\<close>

definition getClaimedCommunityBounties :: "store \<Rightarrow> community_bounty list" where
  "getClaimedCommunityBounties s =
     sort_key (\<lambda>b. case claimedAt b of Some t \<Rightarrow> t | None \<Rightarrow> 0)
       (filter (\<lambda>b. status b = claimed) (communityBounties s))"

text \<open>
  \<^verbatim>\<open>processClaimedBounties\<close>: the claimed bounties are fetched once and processed one
  after the other, each on the store the previous one left.
\<close>

fun processEach :: "relayer_env \<Rightarrow> nat list \<Rightarrow> store \<times> ledger_call list \<Rightarrow> store \<times> ledger_call list" where
  "processEach env [] acc = acc"
| "processEach env (bid # rest) (s, calls) =
     (let (s', calls') = processClaimedBounty env s bid
      in processEach env rest (s', calls @ calls'))"

definition processClaimedBounties :: "relayer_env \<Rightarrow> store \<Rightarrow> store \<times> ledger_call list" where
  "processClaimedBounties env s =
     (let claimedBounties = getClaimedCommunityBounties s
      in if claimedBounties = [] then (s, [])
         else processEach env (map bountyId claimedBounties) (s, []))"

text \<open>
  \<^verbatim>\<open>startCommunityBountyRelayer\<close>: one cycle is started at once, and \<^verbatim>\<open>setInterval\<close>
  starts another every \<open>intervalMs\<close> milliseconds. The timer callback calls
  \<^verbatim>\<open>processClaimedBounties\<close> without looking at the cycles started before, so the
  \<open>k\<close>-th cycle starts at \<open>k * intervalMs\<close> whatever the earlier ones are doing.
\<close>

definition cycleStart :: "nat \<Rightarrow> nat \<Rightarrow> nat" where
  "cycleStart intervalMs k = k * intervalMs"

text \<open>
  The time line of one cycle that starts at \<open>t\<close>: each bounty is processed to its end
  (\<open>d\<close> milliseconds of verification and chain calls), then the loop waits 2000 ms
  before the next. \<open>cycleSchedule\<close> lists, per bounty, its id and the interval in which it
  is processed; \<open>cycleEnd\<close> is the time at which the cycle returns.
\<close>

fun cycleSchedule :: "nat \<Rightarrow> (nat \<times> nat) list \<Rightarrow> (nat \<times> nat \<times> nat) list" where
  "cycleSchedule t [] = []"
| "cycleSchedule t ((bid, d) # rest) = (bid, t, t + d) # cycleSchedule (t + d + 2000) rest"

fun cycleEnd :: "nat \<Rightarrow> (nat \<times> nat) list \<Rightarrow> nat" where
  "cycleEnd t [] = t"
| "cycleEnd t ((bid, d) # rest) = cycleEnd (t + d + 2000) rest"

text \<open>Cycle \<open>k\<close> is still running when cycle \<open>k + 1\<close> starts.\<close>

definition cyclesOverlap :: "nat \<Rightarrow> nat \<Rightarrow> (nat \<times> nat) list \<Rightarrow> bool" where
  "cyclesOverlap intervalMs k work =
     (cycleStart intervalMs (Suc k) < cycleEnd (cycleStart intervalMs k) work)"

text \<open>The processing intervals of a schedule follow one another without overlap.\<close>

fun sequential :: "(nat \<times> nat \<times> nat) list \<Rightarrow> bool" where
  "sequential [] = True"
| "sequential [x] = True"
| "sequential ((b1, s1, e1) # (b2, s2, e2) # rest) =
     (e1 \<le> s2 \<and> sequential ((b2, s2, e2) # rest))"

section \<open>Command parser\<close>

datatype currency_token = XDC | ROXN | USDC

datatype bounty_command =
  CommunityClaim nat
  | Status
  | PoolAllocate rat currency_token
  | CommunityCreate rat currency_token
  | Request

definition isDigit :: "char \<Rightarrow> bool" where
  "isDigit c = (c \<in> set ''0123456789'')"

definition digitValue :: "char \<Rightarrow> nat" where
  "digitValue c = of_char c - 48"

text \<open>The number written by a string of decimal digits, most significant first.\<close>

definition digitsValue :: "string \<Rightarrow> nat" where
  "digitsValue ds = foldl (\<lambda>acc c. 10 * acc + digitValue c) 0 ds"

definition allDigits :: "string \<Rightarrow> bool" where
  "allDigits ds = (ds \<noteq> [] \<and> list_all isDigit ds)"

text \<open>
  The amount pattern \<^verbatim>\<open>^\d+(\.\d{1,8})?$\<close> of \<^verbatim>\<open>createCommunityBountySchema\<close>
  (\<^verbatim>\<open>docs/SECURITY_AUDIT_FINDINGS.md\<close>): the text is cut at its first dot.
\<close>

definition splitDot :: "string \<Rightarrow> string \<times> string option" where
  "splitDot t =
     (let whole = takeWhile (\<lambda>c. c \<noteq> CHR ''.'') t;
          rest = dropWhile (\<lambda>c. c \<noteq> CHR ''.'') t
      in (whole, if rest = [] then None else Some (tl rest)))"

definition matchesAmountPattern :: "string \<Rightarrow> bool" where
  "matchesAmountPattern t =
     (case splitDot t of
        (whole, None) \<Rightarrow> allDigits whole
      | (whole, Some fracDigits) \<Rightarrow> allDigits whole \<and> allDigits fracDigits \<and> length fracDigits \<le> 8)"

definition amountValue :: "string \<Rightarrow> rat" where
  "amountValue t =
     (case splitDot t of
        (whole, None) \<Rightarrow> of_nat (digitsValue whole)
      | (whole, Some fracDigits) \<Rightarrow>
          of_nat (digitsValue whole) + of_nat (digitsValue fracDigits) / 10 ^ length fracDigits)"

definition parseCurrency :: "string \<Rightarrow> currency_token option" where
  "parseCurrency t =
     (if t = ''XDC'' then Some XDC
      else if t = ''ROXN'' then Some ROXN
      else if t = ''USDC'' then Some USDC
      else None)"

text \<open>
  Modelled from the spec: \<^verbatim>\<open>parseBountyCommand\<close> lives in \<^verbatim>\<open>server/github.ts\<close>,
  which is not among the sources. Section 4.5 of the specification: an amount must match
  the fixed-precision decimal pattern (at most 8 fractional digits) and parse to a value
  of at least 1 and at most \<open>10\<^sup>6\<close>; the currency is one of the three tokens in upper case.
\<close>

definition parseAmount :: "string \<Rightarrow> rat option" where
  "parseAmount t =
     (if matchesAmountPattern t \<and> 1 \<le> amountValue t \<and> amountValue t \<le> 1000000
      then Some (amountValue t) else None)"

definition isSpace :: "char \<Rightarrow> bool" where
  "isSpace c = (c = CHR '' '' \<or> c = CHR 0x09 \<or> c = CHR 0x0A \<or> c = CHR 0x0D)"

text \<open>The words of a text: its maximal runs of characters that are not white space.\<close>

fun wordsOf :: "string \<Rightarrow> string \<Rightarrow> string list" where
  "wordsOf cur [] = (if cur = [] then [] else [cur])"
| "wordsOf cur (c # cs) =
     (if isSpace c then (if cur = [] then wordsOf [] cs else cur # wordsOf [] cs)
      else wordsOf (cur @ [c]) cs)"

definition parsePrReference :: "string \<Rightarrow> nat option" where
  "parsePrReference t =
     (case t of
        [] \<Rightarrow> None
      | c # ds \<Rightarrow> if c = CHR ''#'' \<and> allDigits ds then Some (digitsValue ds) else None)"

text \<open>
  Modelled from the spec: \<^verbatim>\<open>parseBountyCommand\<close> (see above). Sections 4.5 and 6 of the
  specification: the patterns are tried in priority order (claim with a PR number, status
  mention, pool-scoped creation, bare creation, bare request) on the command surface
  \<^verbatim>\<open>/claim #<prNumber>\<close>, \<^verbatim>\<open>@bot status\<close>, \<^verbatim>\<open>/bounty pool <amount> <currency>\<close>,
  \<^verbatim>\<open>/bounty <amount> <currency>\<close>, \<^verbatim>\<open>/bounty\<close>; text that matches none of them is not a
  command and gives \<open>None\<close>. The bot is mentioned as \<^verbatim>\<open>@roxonn\<close> in this repository.
\<close>

definition parseBountyCommand :: "string \<Rightarrow> bounty_command option" where
  "parseBountyCommand text =
     (case wordsOf [] text of
        [c, pr] \<Rightarrow>
          if c = ''/claim'' then map_option CommunityClaim (parsePrReference pr)
          else if c = ''@roxonn'' \<and> pr = ''status'' then Some Status
          else None
      | [c, p, a, cur] \<Rightarrow>
          if c = ''/bounty'' \<and> p = ''pool'' then
            (case (parseAmount a, parseCurrency cur) of
               (Some v, Some k) \<Rightarrow> Some (PoolAllocate v k)
             | _ \<Rightarrow> None)
          else None
      | [c, a, cur] \<Rightarrow>
          if c = ''/bounty'' then
            (case (parseAmount a, parseCurrency cur) of
               (Some v, Some k) \<Rightarrow> Some (CommunityCreate v k)
             | _ \<Rightarrow> None)
          else None
      | [c] \<Rightarrow> if c = ''/bounty'' then Some Request else None
      | _ \<Rightarrow> None)"

section \<open>HTTP routes\<close>

text \<open>A response: the status code and the message or error text of its body.\<close>

datatype http_response = Response nat string

record escrow_receipt =
  escrowTx :: string
  escrowBountyId :: nat

text \<open>
  One call of \<^verbatim>\<open>blockchain.createCommunityBountyWithXDC\<close>, \<^verbatim>\<open>...WithROXN\<close> or
  \<^verbatim>\<open>...WithUSDC\<close>: the currency that selects the method, the payer, the total to lock,
  the expiry in seconds, and the base amount and the two fees passed along.
\<close>

record escrow_call =
  callCurrency :: string
  callUser :: nat
  callTotal :: rat
  callExpiry :: nat
  callBase :: rat
  callClientFee :: rat
  callContributorFee :: rat

text \<open>
  The collaborators of one request: the chain call, whether a database write raises, and
  the clock. \<open>chainConfirms\<close> is what an independent look at the chain would show for a
  returned result: a confirmed, successful transaction with that hash that created the
  escrow with that on-chain id. No route asks for it.
\<close>

record route_env =
  createCommunityBounty :: "escrow_call \<Rightarrow> escrow_receipt outcome"
  chainConfirms :: "escrow_receipt \<Rightarrow> bool"
  routeDbRaises :: bool
  routeNow :: nat

text \<open>The text of a status, as the routes put it into their messages.\<close>

fun statusName :: "bounty_status \<Rightarrow> string" where
  "statusName pending_payment = ''pending_payment''"
| "statusName funded = ''funded''"
| "statusName claimed = ''claimed''"
| "statusName completed = ''completed''"
| "statusName refunded = ''refunded''"
| "statusName expired = ''expired''"
| "statusName failed_verification = ''failed_verification''"

record pay_request =
  payUser :: "nat option"
  payId :: "nat option"

definition orElse :: "'a option \<Rightarrow> 'a \<Rightarrow> 'a" where
  "orElse x d = (case x of Some v \<Rightarrow> v | None \<Rightarrow> d)"

text \<open>
  The arguments the pay route hands to the chain call: the total the client pays, or the
  plain amount where that column is empty, and the expiry in seconds (0 without expiry).
\<close>

definition escrowCallFor :: "nat \<Rightarrow> community_bounty \<Rightarrow> escrow_call" where
  "escrowCallFor uid bounty =
     \<lparr> callCurrency = currency bounty, callUser = uid,
       callTotal = orElse (b_totalPaidByClient bounty) (amount bounty),
       callExpiry = (case expiresAt bounty of Some t \<Rightarrow> t div 1000 | None \<Rightarrow> 0),
       callBase = orElse (b_baseBountyAmount bounty) (amount bounty),
       callClientFee = orElse (b_clientFeeAmount bounty) 0,
       callContributorFee = orElse (b_contributorFeeAmount bounty) 0 \<rparr>"

text \<open>The columns the pay route writes once the chain call has returned.\<close>

definition fundingFields :: "escrow_receipt \<Rightarrow> nat \<Rightarrow> community_bounty \<Rightarrow> community_bounty" where
  "fundingFields result tm b =
     b\<lparr> status := funded,
        paymentStatus := ''completed'',
        paymentMethod := Some ''crypto'',
        escrowTxHash := Some (escrowTx result),
        escrowDepositedAt := Some tm,
        blockchainBountyId := Some (escrowBountyId result) \<rparr>"

text \<open>
  \<^verbatim>\<open>POST /api/community-bounties/:id/pay\<close>. \<open>payUser\<close> is the authenticated user
  (\<^verbatim>\<open>req.user?.id\<close>, refused when missing or 0), \<open>payId\<close> the parsed path parameter
  (\<open>None\<close> for \<^verbatim>\<open>NaN\<close>). The result is the store afterwards, the response and the escrow
  creations invoked. An exception of the chain call or of the database write ends in the
  route's \<^verbatim>\<open>catch\<close> with status 500. Whatever the chain call returns is written to the
  bounty; the route looks neither at the result nor at the chain.
\<close>

definition payRoute ::
  "route_env \<Rightarrow> store \<Rightarrow> pay_request \<Rightarrow> store \<times> http_response \<times> escrow_call list" where
  "payRoute env s req =
     (if falsyNum (payUser req) then (s, Response 401 ''Not authenticated'', [])
      else
     (let uid = the (payUser req) in
      case payId req of
        None \<Rightarrow> (s, Response 400 ''Invalid bounty ID'', [])
      | Some bid \<Rightarrow>
     (case getCommunityBounty s bid of
        None \<Rightarrow> (s, Response 404 ''Bounty not found'', [])
      | Some bounty \<Rightarrow>
          if creatorUserId bounty \<noteq> Some uid
            then (s, Response 403 ''Only bounty creator can pay'', [])
          else if status bounty \<noteq> pending_payment
            then (s, Response 400
                       (''Bounty is not in pending_payment status (current: ''
                          @ statusName (status bounty) @ '')''), [])
          else if currency bounty \<noteq> ''XDC'' \<and> currency bounty \<noteq> ''ROXN''
                  \<and> currency bounty \<noteq> ''USDC''
            then (s, Response 400 ''Unsupported currency'', [])
          else
            (case createCommunityBounty env (escrowCallFor uid bounty) of
               Throws msg \<Rightarrow>
                 (s, Response 500 ''Failed to process payment'', [escrowCallFor uid bounty])
             | Returns result \<Rightarrow>
                 (case updateCommunityBounty (routeDbRaises env) s bid
                         (fundingFields result (routeNow env)) of
                    Throws msg \<Rightarrow>
                      (s, Response 500 ''Failed to process payment'', [escrowCallFor uid bounty])
                  | Returns s' \<Rightarrow>
                      (s', Response 200 ''Bounty funded successfully'',
                       [escrowCallFor uid bounty]))))))"

record claim_request =
  claimUser :: "nat option"
  claimId :: "nat option"
  claimPrNumber :: "nat option"
  claimPrUrl :: string

text \<open>
  The message of the error that the atomic claim throws; for the violated foreign key it
  is the message of PostgreSQL. The route answers each of them with status 400 and the
  message.
\<close>

fun claimErrorMessage :: "claim_error \<Rightarrow> string" where
  "claimErrorMessage BountyNotFound = ''Bounty not found''"
| "claimErrorMessage (BountyNotClaimable st) =
     ''Bounty is not claimable (status: '' @ statusName st @ '')''"
| "claimErrorMessage ForeignKeyViolation =
     ''insert or update on table '' @ [CHR 0x22] @ ''community_bounties'' @ [CHR 0x22]
       @ '' violates foreign key constraint '' @ [CHR 0x22]
       @ ''community_bounties_claimed_by_user_id_fkey'' @ [CHR 0x22]"

text \<open>
  \<^verbatim>\<open>POST /api/community-bounties/:id/claim\<close>. \<open>claimUser\<close> is the authenticated user
  (refused when missing or 0); \<open>claimPrNumber\<close> is \<open>None\<close> when the body carries no number
  there.
\<close>

definition claimRoute :: "route_env \<Rightarrow> store \<Rightarrow> claim_request \<Rightarrow> store \<times> http_response" where
  "claimRoute env s req =
     (if falsyNum (claimUser req) then (s, Response 401 ''Not authenticated'')
      else
     (let uid = the (claimUser req) in
      case claimId req of
        None \<Rightarrow> (s, Response 400 ''Invalid bounty ID'')
      | Some bid \<Rightarrow>
          if falsyNum (claimPrNumber req) then (s, Response 400 ''PR number is required'')
          else
     (case getCommunityBounty s bid of
        None \<Rightarrow> (s, Response 404 ''Bounty not found'')
      | Some bounty \<Rightarrow>
          if status bounty \<noteq> funded
            then (s, Response 400
                       (''Bounty is not available for claiming (status: ''
                          @ statusName (status bounty) @ '')''))
          else
     (case getUserById s uid of
        None \<Rightarrow> (s, Response 400 ''GitHub account not linked'')
      | Some u \<Rightarrow>
          if falsyStr (githubUsername u) then (s, Response 400 ''GitHub account not linked'')
          else if falsyStr (xdcWalletAddress u)
            then (s, Response 400 ''Wallet not set up. Please create a wallet first.'')
          else
            (case claimCommunityBountyAtomic s bid uid (the (githubUsername u))
                    (the (claimPrNumber req)) (claimPrUrl req) (routeNow env) of
               (s', Inl err) \<Rightarrow> (s', Response 400 (claimErrorMessage err))
             | (s', Inr updated) \<Rightarrow>
                 (s', Response 200
                        (''Bounty claimed successfully. Payout will be processed ''
                           @ ''automatically after your PR is merged.'')))))))"

section \<open>Webhook handler\<close>

record webhook_request =
  event :: string
  signature :: "string option"
  signatureValid :: bool
  delivery :: string
  action :: "string option"
  payloadInstallationId :: "string option"
  payloadRepositoryId :: "string option"
  commentBody :: "string option"
  pullRequestMerged :: bool

text \<open>What the handler sets in motion besides its writes to the delivery table.\<close>

datatype webhook_effect =
  IssueOpenedScheduled
  | BountyCommandScheduled
  | IssueClosedScheduled
  | PullRequestMergedScheduled
  | RepositoryVisibilityUpdated string bool

text \<open>
  \<^verbatim>\<open>handleGitHubAppWebhook\<close>. \<open>signatureValid\<close> is the answer of
  \<^verbatim>\<open>appWebhooks.verify\<close>; the payload is the parsed JSON body. The first argument says
  whether the insert of \<^verbatim>\<open>recordWebhookDelivery\<close> raises.
  \<^verbatim>\<open>String(payload.installation?.id)\<close> of a missing id is the text \<^verbatim>\<open>undefined\<close>.
\<close>

definition handleGitHubAppWebhook ::
  "bool \<Rightarrow> store \<Rightarrow> webhook_request \<Rightarrow> store \<times> http_response \<times> webhook_effect list" where
  "handleGitHubAppWebhook insertRaises s req =
     (if falsyStr (signature req) then (s, Response 401 ''Missing signature'', [])
      else if \<not> signatureValid req then (s, Response 401 ''Invalid signature'', [])
      else
        (let instId = orElse (payloadInstallationId req) ''undefined''
         in if instId = [] then (s, Response 400 ''Missing installation ID'', [])
            else
              (case recordWebhookDelivery insertRaises s (delivery req) (event req)
                      (if falsyStr (action req) then None else action req)
                      (if falsyStr (payloadRepositoryId req) then None else payloadRepositoryId req)
                      (Some instId) of
                 (s1, isFirstDelivery) \<Rightarrow>
                   if \<not> isFirstDelivery then (s1, Response 200 ''Duplicate delivery ignored'', [])
                   else if event req = ''installation'' \<or> event req = ''installation_repositories''
                     then (markWebhookDeliveryCompleted s1 (delivery req),
                           Response 200 ''Installation event processed.'', [])
                   else if event req = ''issues'' \<and> action req = Some ''opened''
                     then (s1, Response 202 ''Issue opened processing initiated.'',
                           [IssueOpenedScheduled])
                   else if event req = ''issue_comment'' \<and> action req = Some ''created''
                     then (case parseBountyCommand (orElse (commentBody req) []) of
                             Some command \<Rightarrow>
                               (s1, Response 202 ''Bounty command processing initiated.'',
                                [BountyCommandScheduled])
                           | None \<Rightarrow>
                               (markWebhookDeliveryCompleted s1 (delivery req),
                                Response 200 ''Comment ignored - no bounty command'', []))
                   else if event req = ''issues'' \<and> action req = Some ''closed''
                     then (s1, Response 202 ''Webhook received and Issue Closed processing initiated.'',
                           [IssueClosedScheduled])
                   else if event req = ''pull_request'' \<and> action req = Some ''closed''
                           \<and> pullRequestMerged req
                     then (s1, Response 202 ''PR merge auto-payout processing initiated.'',
                           [PullRequestMergedScheduled])
                   else if event req = ''repository''
                           \<and> (action req = Some ''privatized'' \<or> action req = Some ''publicized'')
                     then (markWebhookDeliveryCompleted s1 (delivery req),
                           Response 200 ''Repository visibility update processed.'',
                           [RepositoryVisibilityUpdated
                              (orElse (payloadRepositoryId req) ''undefined'')
                              (action req = Some ''privatized'')])
                   else (markWebhookDeliveryCompleted s1 (delivery req),
                         Response 200 ''Event ignored'', []))))"

section \<open>Escrow contract\<close>

text \<open>
  \<^verbatim>\<open>contracts/CommunityBountyEscrow.sol\<close>. A \<^verbatim>\<open>uint256\<close> is a natural number below
  \<open>2\<^sup>2\<^sup>5\<^sup>6\<close>; Solidity 0.8 reverts with a panic where an operation leaves that range.
  Token and native transfers are listed in the result, in the order the contract makes
  them; a transfer that the token or the recipient rejects is outside the model.
\<close>

type_synonym address = "160 word"

datatype BountyStatus = ACTIVE | COMPLETED | REFUNDED | CANCELLED

record Bounty =
  creator :: address
  escrowAmount :: nat
  escrowCurrency :: currency_token
  escrowExpiresAt :: nat
  escrowStatus :: BountyStatus

record escrow =
  relayer :: address
  feeCollector :: address
  platformFeeRate :: nat
  contributorFeeRate :: nat
  bounties :: "nat \<Rightarrow> Bounty"
  nextBountyId :: nat

datatype revert = Revert string | Panic

type_synonym transfer = "address \<times> currency_token \<times> nat"

definition uint256_max :: nat where
  "uint256_max = 2 ^ 256 - 1"

definition checkedAdd :: "nat \<Rightarrow> nat \<Rightarrow> nat option" where
  "checkedAdd a b = (if a + b \<le> uint256_max then Some (a + b) else None)"

definition checkedSub :: "nat \<Rightarrow> nat \<Rightarrow> nat option" where
  "checkedSub a b = (if b \<le> a then Some (a - b) else None)"

definition checkedMul :: "nat \<Rightarrow> nat \<Rightarrow> nat option" where
  "checkedMul a b = (if a * b \<le> uint256_max then Some (a * b) else None)"

text \<open>An entry of the mapping that was never written reads as the zero value.\<close>

definition zeroBounty :: Bounty where
  "zeroBounty = \<lparr> creator = 0, escrowAmount = 0, escrowCurrency = XDC,
                  escrowExpiresAt = 0, escrowStatus = ACTIVE \<rparr>"

definition initialize :: "address \<Rightarrow> address \<Rightarrow> address \<Rightarrow> address \<Rightarrow> revert + escrow" where
  "initialize roxnToken usdcToken newRelayer newFeeCollector =
     (if roxnToken = 0 then Inl (Revert ''Invalid ROXN token'')
      else if usdcToken = 0 then Inl (Revert ''Invalid USDC token'')
      else if newRelayer = 0 then Inl (Revert ''Invalid relayer'')
      else if newFeeCollector = 0 then Inl (Revert ''Invalid fee collector'')
      else Inr \<lparr> relayer = newRelayer, feeCollector = newFeeCollector,
                 platformFeeRate = 50, contributorFeeRate = 50,
                 bounties = (\<lambda>i. zeroBounty), nextBountyId = 1 \<rparr>)"

text \<open>
  \<^verbatim>\<open>createBounty\<close>, called by \<open>sender\<close> with \<open>msgValue\<close> native coins attached at block
  time \<open>timestamp\<close>.
\<close>

definition createBounty ::
  "escrow \<Rightarrow> address \<Rightarrow> nat \<Rightarrow> nat \<Rightarrow> nat \<Rightarrow> currency_token \<Rightarrow> nat \<Rightarrow> revert + (escrow \<times> nat)" where
  "createBounty e sender msgValue timestamp amt cur expiry =
     (if \<not> 0 < amt then Inl (Revert ''Amount must be positive'')
      else if 0 < expiry \<and> \<not> timestamp < expiry then Inl (Revert ''Expiry must be in future'')
      else
        (case checkedAdd (nextBountyId e) 1 of
           None \<Rightarrow> Inl Panic
         | Some next \<Rightarrow>
             if cur = XDC \<and> msgValue \<noteq> amt then Inl (Revert ''XDC amount mismatch'')
             else
               Inr (e\<lparr> nextBountyId := next,
                        bounties := (bounties e)(nextBountyId e :=
                          \<lparr> creator = sender, escrowAmount = amt, escrowCurrency = cur,
                            escrowExpiresAt = expiry, escrowStatus = ACTIVE \<rparr>) \<rparr>,
                    nextBountyId e)))"

text \<open>
  \<^verbatim>\<open>completeBounty\<close>, called by \<open>sender\<close> at block time \<open>timestamp\<close>. The result is the
  contract state afterwards and the two transfers: the net amount to the contributor,
  then both fees to the fee collector.
\<close>

definition completeBounty ::
  "escrow \<Rightarrow> address \<Rightarrow> nat \<Rightarrow> nat \<Rightarrow> address \<Rightarrow> revert + (escrow \<times> transfer list)" where
  "completeBounty e sender timestamp bid contributor =
     (let bounty = bounties e bid
      in if sender \<noteq> relayer e then Inl (Revert ''Only relayer can call'')
         else if escrowStatus bounty \<noteq> ACTIVE then Inl (Revert ''Bounty not active'')
         else if contributor = 0 then Inl (Revert ''Invalid contributor'')
         else if 0 < escrowExpiresAt bounty \<and> \<not> timestamp \<le> escrowExpiresAt bounty
           then Inl (Revert ''Bounty expired'')
         else
           (case checkedMul (escrowAmount bounty) (platformFeeRate e) of
              None \<Rightarrow> Inl Panic
            | Some pm \<Rightarrow>
           (case checkedMul (escrowAmount bounty) (contributorFeeRate e) of
              None \<Rightarrow> Inl Panic
            | Some cm \<Rightarrow>
           (let platformFee = pm div 10000;
                contributorFee = cm div 10000
            in case checkedSub (escrowAmount bounty) platformFee of
                 None \<Rightarrow> Inl Panic
               | Some rest \<Rightarrow>
              (case checkedSub rest contributorFee of
                 None \<Rightarrow> Inl Panic
               | Some netAmount \<Rightarrow>
              (case checkedAdd platformFee contributorFee of
                 None \<Rightarrow> Inl Panic
               | Some fees \<Rightarrow>
                   Inr (e\<lparr>bounties := (bounties e)(bid := bounty\<lparr>escrowStatus := COMPLETED\<rparr>)\<rparr>,
                        [(contributor, escrowCurrency bounty, netAmount),
                         (feeCollector e, escrowCurrency bounty, fees)])))))))"

section \<open>Example data\<close>

text \<open>
  A bounty of 100 USDC on issue 7 of \<^verbatim>\<open>acme/widgets\<close>, created by user 10 and not yet
  paid, and the users of the examples: the creator and the contributors \<^verbatim>\<open>alice\<close> and
  \<^verbatim>\<open>bob\<close>.
\<close>

definition exampleBounty :: community_bounty where
  "exampleBounty =
     \<lparr> bountyId = 1, githubRepoOwner = ''acme'', githubRepoName = ''widgets'',
       githubIssueNumber = 7, githubInstallationId = Some ''555'', creatorUserId = Some 10,
       amount = 100, currency = ''USDC'',
       b_baseBountyAmount = Some 100, b_clientFeeAmount = Some (5 / 2),
       b_contributorFeeAmount = Some (5 / 2), b_totalPaidByClient = Some (205 / 2),
       expiresAt = None, status = pending_payment, paymentStatus = ''pending'',
       paymentMethod = None, escrowTxHash = None, escrowDepositedAt = None,
       blockchainBountyId = None, claimedByUserId = None, claimedByGithubUsername = None,
       claimedPrNumber = None, claimedPrUrl = None, claimedAt = None,
       payoutTxHash = None, payoutExecutedAt = None, payoutRecipientAddress = None \<rparr>"

definition exampleUsers :: "user list" where
  "exampleUsers =
     [\<lparr> userId = 10, githubUsername = Some ''carol'', xdcWalletAddress = Some ''xdc10'' \<rparr>,
      \<lparr> userId = 11, githubUsername = Some ''alice'', xdcWalletAddress = Some ''xdc11'' \<rparr>,
      \<lparr> userId = 12, githubUsername = Some ''bob'', xdcWalletAddress = Some ''xdc12'' \<rparr>]"

definition storeWith :: "community_bounty \<Rightarrow> store" where
  "storeWith b = \<lparr> communityBounties = [b], payouts = [], webhookDeliveries = [], users = exampleUsers \<rparr>"

definition fundedBounty :: community_bounty where
  "fundedBounty =
     exampleBounty\<lparr> status := funded, paymentStatus := ''completed'',
                    paymentMethod := Some ''crypto'', escrowTxHash := Some ''0xe5c'',
                    escrowDepositedAt := Some 1000, blockchainBountyId := Some 5 \<rparr>"

text \<open>The funded bounty after \<^verbatim>\<open>alice\<close> (user 11) has claimed it with PR 42 at time 2000.\<close>

definition claimedBounty :: community_bounty where
  "claimedBounty =
     fundedBounty\<lparr> status := claimed, claimedByUserId := Some 11,
                   claimedByGithubUsername := Some ''alice'', claimedPrNumber := Some 42,
                   claimedPrUrl := Some ''https://github.com/acme/widgets/pull/42'',
                   claimedAt := Some 2000 \<rparr>"

definition emptyStore :: store where
  "emptyStore = \<lparr> communityBounties = [], payouts = [], webhookDeliveries = [], users = [] \<rparr>"

text \<open>A signed delivery \<^verbatim>\<open>abc-123\<close> of an \<^verbatim>\<open>issues\<close> event with action \<^verbatim>\<open>closed\<close>.\<close>

definition issueClosedRequest :: webhook_request where
  "issueClosedRequest =
     \<lparr> event = ''issues'', signature = Some ''sha256=5d41'', signatureValid = True,
       delivery = ''abc-123'', action = Some ''closed'', payloadInstallationId = Some ''456'',
       payloadRepositoryId = Some ''123'', commentBody = None, pullRequestMerged = False \<rparr>"

text \<open>
  A relayer run in which GitHub confirms the PR and the chain call returns, and the
  view of GitHub used by the examples: PR 42 of \<^verbatim>\<open>acme/widgets\<close> is merged and closes
  issue 7.
\<close>

definition exampleGithub :: "string \<Rightarrow> string \<Rightarrow> nat \<Rightarrow> string \<Rightarrow> pr_lookup" where
  "exampleGithub repoOwner repoName prNumber instId =
     (if repoOwner = ''acme'' \<and> repoName = ''widgets'' \<and> prNumber = 42
      then PullRequest True [7] else NoSuchPR)"

definition exampleEnv :: relayer_env where
  "exampleEnv =
     \<lparr> verify = verifyPRMergedAndClosesIssue exampleGithub,
       completeCommunityBounty = (\<lambda>onChainId wallet. Returns \<lparr> txHash = ''0xpay'', blockNumber = 9 \<rparr>),
       dbRaises = False, relayerNow = 3000 \<rparr>"

text \<open>
  The store left by a relayer run on the claimed example bounty in which the chain call
  returns and the payout is recorded, but the final update of the bounty raises.
\<close>

definition afterFailedUpdate :: store where
  "afterFailedUpdate =
     fst (processClaimedBounty (exampleEnv\<lparr>dbRaises := True\<rparr>) (storeWith claimedBounty) 1)"

text \<open>The pay request of the creator for the example bounty, and a chain that accepts it.\<close>

definition examplePayRequest :: pay_request where
  "examplePayRequest = \<lparr> payUser = Some 10, payId = Some 1 \<rparr>"

definition exampleRouteEnv :: route_env where
  "exampleRouteEnv =
     \<lparr> createCommunityBounty = (\<lambda>call. Returns \<lparr> escrowTx = ''0xe5c'', escrowBountyId = 5 \<rparr>),
       chainConfirms = (\<lambda>result. result = \<lparr> escrowTx = ''0xe5c'', escrowBountyId = 5 \<rparr>),
       routeDbRaises = False, routeNow = 1000 \<rparr>"

text \<open>A chain on which every escrow creation raises.\<close>

definition failingRouteEnv :: route_env where
  "failingRouteEnv =
     exampleRouteEnv\<lparr>createCommunityBounty := (\<lambda>call. Throws ''transaction reverted'')\<rparr>"



text \<open>A claimed bounty that carries everything the relayer needs to call the verifier.\<close>

definition verifiable :: "community_bounty \<Rightarrow> bool" where
  "verifiable b =
     (status b = claimed \<and> \<not> falsyNum (claimedPrNumber b)
      \<and> \<not> falsyStr (claimedByGithubUsername b)
      \<and> githubRepoOwner b \<noteq> [] \<and> githubRepoName b \<noteq> []
      \<and> \<not> falsyStr (githubInstallationId b))"



definition refusingEnv :: "string \<Rightarrow> relayer_env" where
  "refusingEnv reason =
     \<lparr> verify = (\<lambda>repoOwner repoName prNumber issue instId.
                   Returns \<lparr> verified = False, error = Some reason \<rparr>),
       completeCommunityBounty = (\<lambda>onChainId wallet. Returns \<lparr> txHash = ''0xpay'', blockNumber = 9 \<rparr>),
       dbRaises = False, relayerNow = 3000 \<rparr>"




text \<open>Sixteen claimed bounties, each verified and paid in no time at all.\<close>

definition sixteenClaimed :: "(nat \<times> nat) list" where
  "sixteenClaimed = [(1, 0), (2, 0), (3, 0), (4, 0), (5, 0), (6, 0), (7, 0), (8, 0),
     (9, 0), (10, 0), (11, 0), (12, 0), (13, 0), (14, 0), (15, 0), (16, 0)]"

text \<open>
  The escrow as deployed (token contracts 1 and 2, relayer 3, fee collector 4), and the
  escrow after address 9 has locked \<open>amt\<close> base units of USDC in bounty 1 without expiry.
\<close>

definition deployedEscrow :: escrow where
  "deployedEscrow = projr (initialize 1 2 3 4)"

definition escrowWith :: "nat \<Rightarrow> escrow" where
  "escrowWith amt = fst (projr (createBounty deployedEscrow 9 0 100 amt USDC 0))"

section \<open>Two concurrent claims\<close>

text \<open>
  Two transactions of \<^verbatim>\<open>claimCommunityBountyAtomic\<close> on the same bounty, interleaved
  by a schedule. A transaction takes two steps. The first is the
  \<^verbatim>\<open>SELECT ... FOR UPDATE\<close>: on an existing row it waits while the other transaction
  holds the row lock, then takes the lock and reads the row; on a missing row it reads
  nothing and locks nothing. The second is the rest of the transaction body: the two
  checks, the \<^verbatim>\<open>UPDATE\<close> with its foreign key, and the commit or rollback that releases
  the lock. A scheduled step of a waiting transaction changes nothing.
\<close>

datatype tx = TxA | TxB

datatype tx_state =
  NotStarted
  | HoldsRow "community_bounty option"
  | Returned "claim_error + community_bounty"

record claimant =
  byUser :: nat
  byGithub :: string
  byPr :: nat
  byUrl :: string
  atTime :: nat

record race =
  raceStore :: store
  rowLock :: "tx option"
  txState :: "tx \<Rightarrow> tx_state"

definition claimFieldsOf :: "claimant \<Rightarrow> community_bounty \<Rightarrow> community_bounty" where
  "claimFieldsOf c = claimFields (byUser c) (byGithub c) (byPr c) (byUrl c) (atTime c)"

definition stepTx :: "nat \<Rightarrow> (tx \<Rightarrow> claimant) \<Rightarrow> race \<Rightarrow> tx \<Rightarrow> race" where
  "stepTx bid who r t =
     (case txState r t of
        NotStarted \<Rightarrow>
          (case getCommunityBounty (raceStore r) bid of
             None \<Rightarrow> r\<lparr> txState := (txState r)(t := HoldsRow None) \<rparr>
           | Some bounty \<Rightarrow>
               if rowLock r = None
                 then r\<lparr> rowLock := Some t, txState := (txState r)(t := HoldsRow (Some bounty)) \<rparr>
               else r)
      | HoldsRow None \<Rightarrow>
          r\<lparr> txState := (txState r)(t := Returned (Inl BountyNotFound)) \<rparr>
      | HoldsRow (Some bounty) \<Rightarrow>
          if status bounty \<noteq> funded
            then r\<lparr> rowLock := None,
                    txState := (txState r)(t := Returned (Inl (BountyNotClaimable (status bounty)))) \<rparr>
          else if getUserById (raceStore r) (byUser (who t)) = None
            then r\<lparr> rowLock := None,
                    txState := (txState r)(t := Returned (Inl ForeignKeyViolation)) \<rparr>
          else
            r\<lparr> raceStore := (raceStore r)\<lparr>communityBounties :=
                     setBounty bid (claimFieldsOf (who t)) (communityBounties (raceStore r))\<rparr>,
               rowLock := None,
               txState := (txState r)(t := Returned (Inr (claimFieldsOf (who t) bounty))) \<rparr>
      | Returned x \<Rightarrow> r)"

definition startRace :: "store \<Rightarrow> race" where
  "startRace s = \<lparr> raceStore = s, rowLock = None, txState = (\<lambda>t. NotStarted) \<rparr>"

definition runSchedule :: "nat \<Rightarrow> (tx \<Rightarrow> claimant) \<Rightarrow> tx list \<Rightarrow> race \<Rightarrow> race" where
  "runSchedule bid who sched r = foldl (stepTx bid who) r sched"

definition won :: "tx_state \<Rightarrow> bool" where
  "won x = (\<exists>v. x = Returned (Inr v))"

definition lostOrPending :: "tx_state \<Rightarrow> bool" where
  "lostOrPending x =
     (x = NotStarted \<or> (\<exists>row. x = HoldsRow row) \<or> x = Returned (Inl (BountyNotClaimable claimed)))"

definition hasReturned :: "tx_state \<Rightarrow> bool" where
  "hasReturned x = (\<exists>y. x = Returned y)"

definition raceOutcome :: "bounty_status \<Rightarrow> (tx \<Rightarrow> tx_state) \<Rightarrow> bool" where
  "raceOutcome st f =
     ((st = funded \<and> (\<forall>t. \<not> hasReturned (f t)))
      \<or> (st = claimed \<and> (\<exists>w. won (f w) \<and> (\<forall>t. t \<noteq> w \<longrightarrow> lostOrPending (f t)))))"

definition raceInv :: "nat \<Rightarrow> (tx \<Rightarrow> claimant) \<Rightarrow> race \<Rightarrow> bool" where
  "raceInv bid who r =
     (\<exists>c. getCommunityBounty (raceStore r) bid = Some c
        \<and> (\<forall>t. getUserById (raceStore r) (byUser (who t)) \<noteq> None)
        \<and> (\<forall>t row. txState r t = HoldsRow row \<longrightarrow> rowLock r = Some t \<and> row = Some c)
        \<and> (\<forall>t. rowLock r = Some t \<longrightarrow> txState r t = HoldsRow (Some c))
        \<and> raceOutcome (status c) (txState r))"

definition exampleClaimants :: "tx \<Rightarrow> claimant" where
  "exampleClaimants t =
     (case t of
        TxA \<Rightarrow> \<lparr> byUser = 11, byGithub = ''alice'', byPr = 42,
                 byUrl = ''https://github.com/acme/widgets/pull/42'', atTime = 2000 \<rparr>
      | TxB \<Rightarrow> \<lparr> byUser = 12, byGithub = ''bob'', byPr = 43,
                 byUrl = ''https://github.com/acme/widgets/pull/43'', atTime = 2001 \<rparr>)"

section \<open>Properties of JavaScript numbers\<close>

lemma roundEven_near: "\<bar>of_int (roundEven m) - m\<bar> \<le> 1 / 2"
proof -
  have b: "of_int \<lfloor>m\<rfloor> \<le> m" "m < of_int \<lfloor>m\<rfloor> + 1" by linarith+
  consider (lo) "m - of_int \<lfloor>m\<rfloor> < 1 / 2" | (hi) "1 / 2 < m - of_int \<lfloor>m\<rfloor>"
    | (tie) "m - of_int \<lfloor>m\<rfloor> = 1 / 2" by linarith
  then show ?thesis
  proof cases
    case lo
    then have "roundEven m = \<lfloor>m\<rfloor>" by (simp add: roundEven_def Let_def)
    then show ?thesis using lo b by simp
  next
    case hi
    then have "roundEven m = \<lfloor>m\<rfloor> + 1" by (simp add: roundEven_def Let_def)
    then show ?thesis using hi b by simp
  next
    case tie
    then have "roundEven m = \<lfloor>m\<rfloor> \<or> roundEven m = \<lfloor>m\<rfloor> + 1"
      by (simp add: roundEven_def Let_def)
    then show ?thesis using tie by auto
  qed
qed

lemma roundEven_of_int: "roundEven (of_int k) = k"
  unfolding roundEven_def Let_def by simp

lemma roundEven_eqI:
  assumes "\<bar>m - of_int k\<bar> < 1 / 2"
  shows "roundEven m = k"
proof -
  have "\<bar>of_int (roundEven m) - m\<bar> \<le> 1 / 2" by (rule roundEven_near)
  then have "\<bar>(of_int (roundEven m) :: rat) - of_int k\<bar> < 1" using assms by linarith
  then have "\<bar>(of_int (roundEven m - k) :: rat)\<bar> < of_int 1" by simp
  then have "\<bar>roundEven m - k\<bar> < 1" by (simp only: of_int_less_iff flip: of_int_abs)
  then show ?thesis by simp
qed

lemma bitLength_floorlog: "bitLength n = int (floorlog 2 (nat n))"
proof (induction n rule: bitLength.induct)
  case (1 n)
  show ?case
  proof (cases "n \<le> 0")
    case True
    then show ?thesis by (simp add: bitLength.simps [of n] floorlog_eq_zero_iff)
  next
    case False
    then have "bitLength n = 1 + int (floorlog 2 (nat (n div 2)))"
      using 1 by (simp add: bitLength.simps [of n])
    also have "nat (n div 2) = nat n div 2" using False by (simp add: nat_div_distrib)
    also have "1 + int (floorlog 2 (nat n div 2)) = int (floorlog 2 (nat n))"
      using False by (subst (2) compute_floorlog) simp
    finally show ?thesis .
  qed
qed

text \<open>
  The binary exponent is what its name says.
\<close>

lemma ilog2_ge1:
  assumes "1 \<le> a"
  shows "2 powi ilog2 a \<le> a \<and> a < 2 powi (ilog2 a + 1)"
proof -
  let ?n = "nat \<lfloor>a\<rfloor>"
  have fl: "1 \<le> \<lfloor>a\<rfloor>" using assms by linarith
  then have n: "0 < ?n" by simp
  let ?k = "floorlog 2 ?n"
  from floorlog_bounds [OF n, of 2]
  have b: "2 ^ (?k - 1) \<le> ?n" "?n < 2 ^ ?k" by simp_all
  have kpos: "0 < ?k" using n by (simp add: floorlog_eq_zero_iff [of 2 ?n] Suc_le_eq flip: neq0_conv)
  have il: "ilog2 a = int ?k - 1" using assms by (simp add: ilog2_def bitLength_floorlog)
  have "(2::rat) ^ (?k - 1) \<le> of_nat ?n"
    using b(1) by (metis of_nat_le_iff of_nat_numeral of_nat_power)
  also have "(of_nat ?n :: rat) = of_int \<lfloor>a\<rfloor>" using fl by simp
  also have "\<dots> \<le> a" by linarith
  finally have lo: "(2::rat) ^ (?k - 1) \<le> a" .
  have "int ?n + 1 \<le> 2 ^ ?k"
    using b(2) by (metis of_nat_less_iff of_nat_numeral of_nat_power zless_imp_add1_zle)
  then have "\<lfloor>a\<rfloor> + 1 \<le> 2 ^ ?k" using fl by simp
  then have "(of_int (\<lfloor>a\<rfloor> + 1) :: rat) \<le> of_int (2 ^ ?k)" by (simp only: of_int_le_iff)
  then have "(of_int \<lfloor>a\<rfloor> :: rat) + 1 \<le> 2 ^ ?k" by simp
  moreover have "a < of_int \<lfloor>a\<rfloor> + 1" by linarith
  ultimately have hi: "a < 2 ^ ?k" by linarith
  have e1: "(2::rat) powi (int ?k - 1) = 2 ^ (?k - 1)"
    using kpos by (simp add: power_int_def nat_diff_distrib')
  have e2: "(2::rat) powi (int ?k - 1 + 1) = 2 ^ ?k" by (simp add: power_int_def)
  show ?thesis unfolding il e1 e2 using lo hi by simp
qed

lemma ilog2_lt1:
  assumes "0 < a" and "a < 1"
  shows "2 powi ilog2 a \<le> a \<and> a < 2 powi (ilog2 a + 1)"
proof -
  let ?y = "1 / a"
  have y: "1 < ?y" using assms by simp
  let ?m = "\<lceil>?y\<rceil>"
  have m2: "2 \<le> ?m" using y by linarith
  let ?n = "nat (?m - 1)"
  have n: "0 < ?n" using m2 by simp
  let ?k = "floorlog 2 ?n"
  from floorlog_bounds [OF n, of 2]
  have b: "2 ^ (?k - 1) \<le> ?n" "?n < 2 ^ ?k" by simp_all
  have kpos: "0 < ?k" using n by (simp add: floorlog_eq_zero_iff [of 2 ?n] Suc_le_eq flip: neq0_conv)
  have il: "ilog2 a = - int ?k" using assms by (simp add: ilog2_def bitLength_floorlog)
  have "int ?n + 1 \<le> 2 ^ ?k"
    using b(2) by (metis of_nat_less_iff of_nat_numeral of_nat_power zless_imp_add1_zle)
  moreover have nm: "int ?n = ?m - 1"
  proof -
    have "0 \<le> ?m - 1" using m2 by linarith
    then show ?thesis by (rule nat_0_le)
  qed
  ultimately have "?m \<le> 2 ^ ?k" by linarith
  then have "(of_int ?m :: rat) \<le> of_int (2 ^ ?k)" by (simp only: of_int_le_iff)
  then have "(of_int ?m :: rat) \<le> 2 ^ ?k" by simp
  moreover have "?y \<le> of_int ?m" by linarith
  ultimately have yle: "?y \<le> 2 ^ ?k" by linarith
  have "int (2 ^ (?k - 1)) \<le> int ?n" using b(1) by (simp only: of_nat_le_iff)
  then have "2 ^ (?k - 1) \<le> ?m - 1" using nm by simp
  then have "(of_int (2 ^ (?k - 1)) :: rat) \<le> of_int (?m - 1)" by (simp only: of_int_le_iff)
  then have "(2::rat) ^ (?k - 1) \<le> of_int ?m - 1" by simp
  moreover have "of_int ?m - 1 < ?y" by linarith
  ultimately have ygt: "(2::rat) ^ (?k - 1) < ?y" by linarith
  have lo: "1 / 2 ^ ?k \<le> a"
  proof -
    have "1 \<le> a * 2 ^ ?k" using yle assms(1) by (simp add: field_simps)
    then show ?thesis by (simp add: field_simps)
  qed
  have hi: "a < 1 / 2 ^ (?k - 1)"
  proof -
    have "a * 2 ^ (?k - 1) < 1" using ygt assms(1) by (simp add: field_simps)
    then show ?thesis by (simp add: field_simps)
  qed
  have e1: "(2::rat) powi (- int ?k) = 1 / 2 ^ ?k"
    by (simp add: power_int_minus inverse_eq_divide)
  have e2: "(2::rat) powi (- int ?k + 1) = 1 / 2 ^ (?k - 1)"
  proof -
    have "- int ?k + 1 = - int (?k - 1)" using kpos by simp
    then have "(2::rat) powi (- int ?k + 1) = 2 powi (- int (?k - 1))" by (simp only:)
    also have "\<dots> = 1 / 2 ^ (?k - 1)" by (simp add: power_int_minus inverse_eq_divide)
    finally show ?thesis .
  qed
  show ?thesis unfolding il e1 e2 using lo hi by simp
qed

lemma ilog2_bounds:
  assumes "0 < a"
  shows "2 powi ilog2 a \<le> a" and "a < 2 powi (ilog2 a + 1)"
  using ilog2_ge1 [of a] ilog2_lt1 [of a] assms by (cases "1 \<le> a"; simp)+

lemma pow2_less_cancel:
  assumes "(2::rat) powi m < 2 powi n"
  shows "m < n"
proof (rule ccontr)
  assume "\<not> m < n"
  then have "n \<le> m" by simp
  then have "(2::rat) powi n \<le> 2 powi m" by (intro power_int_increasing) simp_all
  then show False using assms by simp
qed

lemma pow2_le_cancel:
  assumes "(2::rat) powi m \<le> a" and "a < 2 powi n"
  shows "m < n"
  using assms pow2_less_cancel [of m n] by linarith

lemma ilog2_unique:
  assumes "0 < a" and "2 powi e \<le> a" and "a < 2 powi (e + 1)"
  shows "ilog2 a = e"
proof -
  have "(2::rat) powi e < 2 powi (ilog2 a + 1)" using assms(2) ilog2_bounds(2) [OF assms(1)] by simp
  then have "e < ilog2 a + 1" by (rule pow2_less_cancel)
  moreover have "(2::rat) powi ilog2 a < 2 powi (e + 1)"
    using assms(3) ilog2_bounds(1) [OF assms(1)] by simp
  then have "ilog2 a < e + 1" by (rule pow2_less_cancel)
  ultimately show ?thesis by simp
qed

text \<open>
  Rounding to the nearest double: below \<open>2\<^sup>1\<^sup>0\<^sup>2\<^sup>3\<close> the result is finite and at most half a
  unit in the last place away; in the normal range that is a relative error of at most
  \<open>2\<^sup>-\<^sup>5\<^sup>3\<close>; a number with at most 53 significant binary digits is its own double.
\<close>

lemma scaled_round_error:
  "\<bar>of_int (roundEven (x / 2 powi q)) * 2 powi q - x\<bar> \<le> (2::rat) powi (q - 1)"
proof -
  let ?p = "(2::rat) powi q"
  have p: "0 < ?p" by simp
  have "of_int (roundEven (x / ?p)) * ?p - x = (of_int (roundEven (x / ?p)) - x / ?p) * ?p"
    using p by (simp add: field_simps)
  then have "\<bar>of_int (roundEven (x / ?p)) * ?p - x\<bar> = \<bar>of_int (roundEven (x / ?p)) - x / ?p\<bar> * ?p"
    using p by (simp add: abs_mult)
  also have "\<dots> \<le> (1 / 2) * ?p"
    using roundEven_near [of "x / ?p"] p by (intro mult_right_mono) simp_all
  also have "\<dots> = 2 powi (q - 1)" by (simp add: power_int_diff)
  finally show ?thesis .
qed

lemma nearestDouble_finite:
  assumes "x \<noteq> 0" and "\<bar>x\<bar> < 2 powi 1023"
  shows "nearestDouble x =
           Finite (of_int (roundEven (x / 2 powi (max (ilog2 \<bar>x\<bar> - 52) (- 1074))))
                     * 2 powi (max (ilog2 \<bar>x\<bar> - 52) (- 1074)))"
proof -
  let ?e = "ilog2 \<bar>x\<bar>"
  let ?q = "max (?e - 52) (- 1074)"
  let ?y = "of_int (roundEven (x / 2 powi ?q)) * (2::rat) powi ?q"
  have pos: "0 < \<bar>x\<bar>" using assms(1) by simp
  have e: "?e < 1023" using ilog2_bounds(1) [OF pos] assms(2) by (rule pow2_le_cancel)
  have err: "\<bar>?y - x\<bar> \<le> 2 powi (?q - 1)" by (rule scaled_round_error)
  have "(2::rat) powi (?q - 1) \<le> 2 powi 1023" by (intro power_int_increasing) (use e in simp_all)
  then have "\<bar>?y\<bar> < 2 powi 1023 + 2 powi 1023" using err assms(2) by linarith
  then have "\<bar>?y\<bar> < 2 ^ 1024" by simp
  then show ?thesis using assms(1) by (simp add: nearestDouble_def Let_def)
qed

lemma nearestDouble_core:
  assumes "x \<noteq> 0" and "\<bar>x\<bar> < 2 powi 1023"
  shows "\<exists>y. nearestDouble x = Finite y
           \<and> \<bar>y - x\<bar> \<le> 2 powi (max (ilog2 \<bar>x\<bar> - 52) (- 1074) - 1)"
proof -
  let ?e = "ilog2 \<bar>x\<bar>"
  let ?q = "max (?e - 52) (- 1074)"
  let ?y = "of_int (roundEven (x / 2 powi ?q)) * (2::rat) powi ?q"
  have pos: "0 < \<bar>x\<bar>" using assms(1) by simp
  have e: "?e < 1023" using ilog2_bounds(1) [OF pos] assms(2) by (rule pow2_le_cancel)
  have err: "\<bar>?y - x\<bar> \<le> 2 powi (?q - 1)" by (rule scaled_round_error)
  have "(2::rat) powi (?q - 1) \<le> 2 powi 1023" by (intro power_int_increasing) (use e in simp_all)
  then have "\<bar>?y\<bar> < 2 powi 1023 + 2 powi 1023" using err assms(2) by linarith
  then have "\<bar>?y\<bar> < 2 ^ 1024" by simp
  then have "nearestDouble x = Finite ?y" using assms(1) by (simp add: nearestDouble_def Let_def)
  then show ?thesis using err by blast
qed

lemma nearestDouble_error:
  assumes "\<bar>x\<bar> < 2 powi j" and "j \<le> 1023" and "- 1021 \<le> j"
  shows "\<exists>y. nearestDouble x = Finite y \<and> \<bar>y - x\<bar> \<le> 2 powi (j - 54)"
proof (cases "x = 0")
  case True
  then show ?thesis by (simp add: nearestDouble_def)
next
  case False
  have pos: "0 < \<bar>x\<bar>" using False by simp
  have "(2::rat) powi j \<le> 2 powi 1023" using assms(2) by (intro power_int_increasing) simp_all
  then have "\<bar>x\<bar> < 2 powi 1023" using assms(1) by linarith
  from nearestDouble_core [OF False this] obtain y where
    y: "nearestDouble x = Finite y"
       "\<bar>y - x\<bar> \<le> 2 powi (max (ilog2 \<bar>x\<bar> - 52) (- 1074) - 1)" by blast
  have e: "ilog2 \<bar>x\<bar> < j" using ilog2_bounds(1) [OF pos] assms(1) by (rule pow2_le_cancel)
  have "(2::rat) powi (max (ilog2 \<bar>x\<bar> - 52) (- 1074) - 1) \<le> 2 powi (j - 54)"
    by (intro power_int_increasing) (use e assms(3) in simp_all)
  then show ?thesis using y by (intro exI [of _ y]) simp
qed

lemma nearestDouble_relative:
  assumes "2 powi (- 1022) \<le> \<bar>x\<bar>" and "\<bar>x\<bar> < 2 powi 1023"
  shows "\<exists>y. nearestDouble x = Finite y \<and> \<bar>y - x\<bar> \<le> \<bar>x\<bar> / 2 ^ 53"
proof -
  have pos: "0 < \<bar>x\<bar>" using assms(1) zero_less_power_int [of "2::rat" "- 1022"] by linarith
  then have nz: "x \<noteq> 0" by simp
  let ?e = "ilog2 \<bar>x\<bar>"
  from nearestDouble_core [OF nz assms(2)] obtain y where
    y: "nearestDouble x = Finite y"
       "\<bar>y - x\<bar> \<le> 2 powi (max (?e - 52) (- 1074) - 1)" by blast
  have "- 1022 < ?e + 1" using assms(1) ilog2_bounds(2) [OF pos] by (rule pow2_le_cancel)
  then have "max (?e - 52) (- 1074) - 1 = ?e - 53" by simp
  then have "\<bar>y - x\<bar> \<le> 2 powi (?e - 53)" using y(2) by simp
  also have "(2::rat) powi (?e - 53) = 2 powi ?e / 2 ^ 53" by (simp add: power_int_diff)
  also have "\<dots> \<le> \<bar>x\<bar> / 2 ^ 53"
    using ilog2_bounds(1) [OF pos] by (intro divide_right_mono) simp_all
  finally show ?thesis using y(1) by blast
qed

lemma nearestDouble_exact:
  assumes "x = of_int m * 2 powi q" and "\<bar>m\<bar> < 2 ^ 53" and "- 1074 \<le> q"
    and "\<bar>x\<bar> < 2 ^ 1024"
  shows "nearestDouble x = Finite x"
proof (cases "x = 0")
  case True
  then show ?thesis by (simp add: nearestDouble_def)
next
  case False
  have pos: "0 < \<bar>x\<bar>" using False by simp
  let ?e = "ilog2 \<bar>x\<bar>"
  let ?q = "max (?e - 52) (- 1074)"
  have "\<bar>x\<bar> = of_int \<bar>m\<bar> * 2 powi q" unfolding assms(1) by (simp add: abs_mult)
  also have "\<dots> < of_int (2 ^ 53) * 2 powi q"
    using assms(2) by (intro mult_strict_right_mono) (simp_all only: of_int_less_iff zero_less_power_int zero_less_numeral)
  also have "\<dots> = 2 powi (q + 53)" by (simp add: power_int_add)
  finally have "\<bar>x\<bar> < 2 powi (q + 53)" .
  with ilog2_bounds(1) [OF pos] have "?e < q + 53" by (rule pow2_le_cancel)
  then have le: "?q \<le> q" using assms(3) by simp
  have "x / 2 powi ?q = of_int m * (2 powi q / 2 powi ?q)" unfolding assms(1) by simp
  also have "(2::rat) powi q / 2 powi ?q = 2 powi (q - ?q)" by (simp add: power_int_diff)
  also have "\<dots> = 2 ^ nat (q - ?q)" using le by (simp add: power_int_def)
  also have "of_int m * (2::rat) ^ nat (q - ?q) = of_int (m * 2 ^ nat (q - ?q))" by simp
  finally have "roundEven (x / 2 powi ?q) = m * 2 ^ nat (q - ?q)" by (simp only: roundEven_of_int)
  then have "of_int (roundEven (x / 2 powi ?q)) * (2::rat) powi ?q
       = of_int m * (2 ^ nat (q - ?q) * 2 powi ?q)" by simp
  also have "(2::rat) ^ nat (q - ?q) * 2 powi ?q = 2 powi (q - ?q) * 2 powi ?q"
    using le by (simp add: power_int_def)
  also have "\<dots> = 2 powi q" by (simp flip: power_int_add)
  finally have "of_int (roundEven (x / 2 powi ?q)) * (2::rat) powi ?q = x" using assms(1) by simp
  then show ?thesis using False assms(4) by (simp add: nearestDouble_def Let_def)
qed

text \<open>
  The number nearest to \<open>x\<close>, given its binary exponent \<open>e\<close> and the whole number \<open>k\<close>
  nearest to \<open>x\<close> in units of \<open>2\<^sup>e\<^sup>-\<^sup>5\<^sup>2\<close>.
\<close>

lemma nearestDouble_eqI:
  assumes "2 powi e \<le> \<bar>x\<bar>" and "\<bar>x\<bar> < 2 powi (e + 1)"
    and "- 1022 \<le> e" and "e \<le> 1022"
    and "\<bar>x / 2 powi (e - 52) - of_int k\<bar> < 1 / 2"
  shows "nearestDouble x = Finite (of_int k * 2 powi (e - 52))"
proof -
  have pos: "0 < \<bar>x\<bar>" using assms(1) zero_less_power_int [of "2::rat" e] by linarith
  then have nz: "x \<noteq> 0" by simp
  have il: "ilog2 \<bar>x\<bar> = e" using pos assms(1,2) by (rule ilog2_unique)
  have "(2::rat) powi (e + 1) \<le> 2 powi 1023" using assms(4) by (intro power_int_increasing) simp_all
  then have "\<bar>x\<bar> < 2 powi 1023" using assms(2) by linarith
  have q: "max (e - 52) (- 1074) = e - 52" using assms(3) by simp
  from nearestDouble_finite [OF nz \<open>\<bar>x\<bar> < 2 powi 1023\<close>]
  have "nearestDouble x = Finite (of_int (roundEven (x / 2 powi (e - 52))) * 2 powi (e - 52))"
    unfolding il q .
  then show ?thesis using roundEven_eqI [OF assms(5)] by simp
qed

lemma nearestDouble_zero: "nearestDouble 0 = Finite 0"
  by (simp add: nearestDouble_def)

lemma pow2_neg_numeral: "(2::rat) powi (- numeral n) = 1 / 2 ^ numeral n"
  by (simp add: power_int_minus inverse_eq_divide)

lemma nearestDouble_between:
  assumes "1 / 1000000000 \<le> x" and "x < 2 ^ 1000"
  shows "\<exists>y. nearestDouble x = Finite y
           \<and> x - x / 9007199254740992 \<le> y \<and> y \<le> x + x / 9007199254740992"
proof -
  have x0: "0 < x" using assms(1) by linarith
  have "(2::rat) powi (- 1022) \<le> 1 / 1000000000" by (simp add: pow2_neg_numeral)
  then have lo: "2 powi (- 1022) \<le> \<bar>x\<bar>" using assms(1) x0 by linarith
  have "(2::rat) ^ 1000 \<le> 2 powi 1023" by simp
  then have hi: "\<bar>x\<bar> < 2 powi 1023" using assms(2) x0 by linarith
  from nearestDouble_relative [OF lo hi] obtain y where
    y: "nearestDouble x = Finite y" "\<bar>y - x\<bar> \<le> \<bar>x\<bar> / 2 ^ 53" by blast
  have "\<bar>x\<bar> = x" using x0 by simp
  then have "\<bar>y - x\<bar> \<le> x / 9007199254740992" using y(2) by simp
  then have "x - x / 9007199254740992 \<le> y \<and> y \<le> x + x / 9007199254740992" by linarith
  then show ?thesis using y(1) by blast
qed

section \<open>Properties of the fee calculator\<close>

lemma numDiv_units: "numDiv (Finite x) 100000000 = nearestDouble (x / 100000000)"
  by simp

lemma literal_0_025:
  "nearestDouble (25 / 1000) = Finite (3602879701896397 / 144115188075855872)"
proof -
  have "nearestDouble (25 / 1000) = Finite (of_int 7205759403792794 * 2 powi (- 6 - 52))"
    by (rule nearestDouble_eqI) (simp_all add: pow2_neg_numeral)
  then show ?thesis by (simp add: pow2_neg_numeral)
qed

lemma literal_fortieth: "nearestDouble (1 / 40) = Finite (3602879701896397 / 144115188075855872)"
  using literal_0_025 by simp

text \<open>
  A product that is within a quarter of a whole number of units rounds to that number.
\<close>

lemma roundTo8_units:
  assumes "\<bar>x * 100000000 - of_int k\<bar> \<le> 1 / 4" and "\<bar>x * 100000000\<bar> < 2 ^ 50"
  shows "roundTo8 (Finite x) = decimal8 k"
proof -
  have "\<bar>x * 100000000\<bar> < 2 powi 50" using assms(2) by simp
  from nearestDouble_error [OF this] obtain y where
    y: "nearestDouble (x * 100000000) = Finite y" "\<bar>y - x * 100000000\<bar> \<le> 2 powi (50 - 54)"
    by auto
  have "\<bar>y - x * 100000000\<bar> \<le> 1 / 16" using y(2) by (simp add: pow2_neg_numeral)
  then have "\<bar>y - of_int k\<bar> \<le> 5 / 16" using assms(1) by linarith
  then have "\<lfloor>y + 1 / 2\<rfloor> = k" by linarith
  then show ?thesis by (simp add: roundTo8_def decimal8_def y(1))
qed

lemma decimal8_error:
  assumes "\<bar>k\<bar> \<le> 200000000000000"
  shows "\<exists>z. decimal8 k = Finite z \<and> \<bar>z - of_int k / 100000000\<bar> \<le> 1 / 2 ^ 33"
proof -
  have "\<bar>(of_int k :: rat)\<bar> \<le> 200000000000000"
    using assms by (metis of_int_abs of_int_le_iff of_int_numeral)
  then have "\<bar>(of_int k :: rat) / 100000000\<bar> < 2 powi 21" by simp
  from nearestDouble_error [OF this] show ?thesis
    by (simp add: decimal8_def pow2_neg_numeral)
qed

text \<open>
  A sum or difference that is within \<open>2\<^sup>-\<^sup>3\<^sup>1\<close> of a whole number of units is rounded
  to the number of that amount. So on amounts of up to 2000000 the sums and differences
  that the function rounds are those of exact decimal arithmetic.
\<close>

lemma roundTo8_nearestDouble_units:
  assumes "\<bar>v - of_int k / 100000000\<bar> \<le> 1 / 2 ^ 31" and "\<bar>k\<bar> \<le> 200000000000000"
  shows "roundTo8 (nearestDouble v) = decimal8 k"
proof -
  have k: "\<bar>(of_int k :: rat)\<bar> \<le> 200000000000000"
    using assms(2) by (metis of_int_abs of_int_le_iff of_int_numeral)
  then have kk: "\<bar>(of_int k :: rat) / 100000000\<bar> \<le> 2000000" by simp
  have "\<bar>v - of_int k / 100000000\<bar> \<le> 1" by (rule order_trans [OF assms(1)]) simp
  then have "\<bar>v\<bar> < 2097152" using kk by linarith
  then have "\<bar>v\<bar> < 2 powi 21" by simp
  from nearestDouble_error [OF this] obtain s where
    s: "nearestDouble v = Finite s" "\<bar>s - v\<bar> \<le> 2 powi (21 - 54)" by auto
  have "\<bar>s - v\<bar> \<le> 1 / 2 ^ 33" using s(2) by (simp add: pow2_neg_numeral)
  then have d: "\<bar>s - of_int k / 100000000\<bar> \<le> 1 / 2 ^ 31 + 1 / 2 ^ 33" using assms(1) by linarith
  have "\<bar>s * 100000000 - of_int k\<bar> = \<bar>s - of_int k / 100000000\<bar> * 100000000"
    by (simp add: abs_if field_simps)
  then have a: "\<bar>s * 100000000 - of_int k\<bar> \<le> 1 / 4" using d by simp
  have "\<bar>s * 100000000\<bar> < 1125899906842624" using a k by linarith
  then have "\<bar>s * 100000000\<bar> < 2 ^ 50" by simp
  with a show ?thesis unfolding s(1) by (rule roundTo8_units)
qed

lemma roundTo8_decimal8:
  assumes "\<bar>k\<bar> \<le> 200000000000000"
  shows "roundTo8 (decimal8 k) = decimal8 k"
  using roundTo8_nearestDouble_units [of "of_int k / 100000000" k] assms
  by (simp add: decimal8_def)

lemma decimal8_add:
  assumes "\<bar>j\<bar> \<le> 200000000000000" and "\<bar>k\<bar> \<le> 200000000000000"
    and "\<bar>j + k\<bar> \<le> 200000000000000"
  shows "roundTo8 (numAdd (decimal8 j) (decimal8 k)) = decimal8 (j + k)"
proof -
  from decimal8_error [OF assms(1)] obtain a where
    a: "decimal8 j = Finite a" "\<bar>a - of_int j / 100000000\<bar> \<le> 1 / 2 ^ 33" by blast
  from decimal8_error [OF assms(2)] obtain b where
    b: "decimal8 k = Finite b" "\<bar>b - of_int k / 100000000\<bar> \<le> 1 / 2 ^ 33" by blast
  have "\<bar>(a + b) - (of_int j / 100000000 + of_int k / 100000000)\<bar> \<le> 1 / 2 ^ 33 + 1 / 2 ^ 33"
    using a(2) b(2) by linarith
  then have "\<bar>(a + b) - of_int (j + k) / 100000000\<bar> \<le> 1 / 2 ^ 31"
    by (simp add: add_divide_distrib)
  then have "roundTo8 (nearestDouble (a + b)) = decimal8 (j + k)"
    using assms(3) by (rule roundTo8_nearestDouble_units)
  then show ?thesis by (simp add: a(1) b(1))
qed

lemma decimal8_sub:
  assumes "\<bar>j\<bar> \<le> 200000000000000" and "\<bar>k\<bar> \<le> 200000000000000"
    and "\<bar>j - k\<bar> \<le> 200000000000000"
  shows "roundTo8 (numSub (decimal8 j) (decimal8 k)) = decimal8 (j - k)"
proof -
  from decimal8_error [OF assms(1)] obtain a where
    a: "decimal8 j = Finite a" "\<bar>a - of_int j / 100000000\<bar> \<le> 1 / 2 ^ 33" by blast
  from decimal8_error [OF assms(2)] obtain b where
    b: "decimal8 k = Finite b" "\<bar>b - of_int k / 100000000\<bar> \<le> 1 / 2 ^ 33" by blast
  have "\<bar>(a - b) - (of_int j / 100000000 - of_int k / 100000000)\<bar> \<le> 1 / 2 ^ 33 + 1 / 2 ^ 33"
    using a(2) b(2) by linarith
  then have "\<bar>(a - b) - of_int (j - k) / 100000000\<bar> \<le> 1 / 2 ^ 31"
    by (simp add: diff_divide_distrib)
  then have "roundTo8 (nearestDouble (a - b)) = decimal8 (j - k)"
    using assms(3) by (rule roundTo8_nearestDouble_units)
  then show ?thesis by (simp add: a(1) b(1))
qed

lemma decimal8_inj:
  assumes "\<bar>j\<bar> \<le> 200000000000000" and "\<bar>k\<bar> \<le> 200000000000000"
    and "decimal8 j = decimal8 k"
  shows "j = k"
proof -
  from decimal8_error [OF assms(1)] obtain a where
    a: "decimal8 j = Finite a" "\<bar>a - of_int j / 100000000\<bar> \<le> 1 / 2 ^ 33" by blast
  from decimal8_error [OF assms(2)] obtain b where
    b: "decimal8 k = Finite b" "\<bar>b - of_int k / 100000000\<bar> \<le> 1 / 2 ^ 33" by blast
  have "a = b" using assms(3) a(1) b(1) by simp
  then have "\<bar>(of_int j :: rat) / 100000000 - of_int k / 100000000\<bar> \<le> 1 / 2 ^ 33 + 1 / 2 ^ 33"
    using a(2) b(2) by linarith
  moreover have "(1 :: rat) / 2 ^ 33 + 1 / 2 ^ 33 \<le> 1 / 200000000" by simp
  ultimately have "\<bar>(of_int j :: rat) - of_int k\<bar> < 1" by linarith
  then have "\<bar>(of_int (j - k) :: rat)\<bar> < of_int 1" by simp
  then have "\<bar>j - k\<bar> < 1" by (simp only: of_int_less_iff flip: of_int_abs)
  then show ?thesis by simp
qed

lemma parseFloat_units: "parseFloat (of_int N / 100000000) = decimal8 N"
  by (simp add: parseFloat_def decimal8_def)

lemma nearest_int_unique:
  assumes "\<bar>of_int n - (of_int k :: rat)\<bar> < 1"
  shows "n = k"
proof -
  have "\<bar>(of_int (n - k) :: rat)\<bar> < of_int 1" using assms by simp
  then have "\<bar>n - k\<bar> < 1" by (simp only: of_int_less_iff flip: of_int_abs)
  then show ?thesis by simp
qed

text \<open>
  A number within a fortieth of \<open>N / 40\<close> is rounded by \<^verbatim>\<open>Math.round\<close> to a whole number
  that is nearest to \<open>N / 40\<close>.
\<close>

lemma round_fortieth:
  fixes y :: rat
  assumes "\<bar>y - of_int N / 40\<bar> < 1 / 40"
  shows "\<bar>of_int \<lfloor>y + 1 / 2\<rfloor> - of_int N / 40\<bar> \<le> (1 / 2 :: rat)"
proof -
  let ?n = "\<lfloor>y + 1 / 2\<rfloor>"
  have n: "of_int ?n \<le> y + 1 / 2" "y + 1 / 2 < of_int ?n + 1" by linarith+
  have e: "(of_int (40 * ?n - N) :: rat) = 40 * of_int ?n - of_int N" by simp
  have "(of_int (40 * ?n - N) :: rat) < 21" unfolding e using n(1) assms by linarith
  then have "(of_int (40 * ?n - N) :: rat) < of_int 21" by simp
  then have "40 * ?n - N < 21" by (simp only: of_int_less_iff)
  then have "40 * ?n - N \<le> 20" by simp
  then have "(of_int (40 * ?n - N) :: rat) \<le> of_int 20" by (simp only: of_int_le_iff)
  then have up: "40 * of_int ?n - of_int N \<le> (20 :: rat)" unfolding e by simp
  have "(- 21 :: rat) < of_int (40 * ?n - N)" unfolding e using n(2) assms by linarith
  then have "(of_int (- 21) :: rat) < of_int (40 * ?n - N)" by simp
  then have "- 21 < 40 * ?n - N" by (simp only: of_int_less_iff)
  then have "- 20 \<le> 40 * ?n - N" by simp
  then have "(of_int (- 20) :: rat) \<le> of_int (40 * ?n - N)" by (simp only: of_int_le_iff)
  then have lo: "(- 20 :: rat) \<le> 40 * of_int ?n - of_int N" unfolding e by simp
  show ?thesis using up lo by linarith
qed

lemma fee_units:
  assumes "0 < N" and "N \<le> 100000000000000"
  shows "\<exists>n. \<bar>of_int n - of_int N / 40\<bar> \<le> (1 / 2 :: rat) \<and> 0 \<le> n \<and> n \<le> 2500000000001
           \<and> roundTo8 (numMul (decimal8 N) (nearestDouble (25 / 1000))) = decimal8 n"
proof -
  let ?r = "of_int N / 100000000 :: rat"
  let ?c = "3602879701896397 / 144115188075855872 :: rat"
  have "(of_int 0 :: rat) < of_int N" using assms(1) by (simp only: of_int_less_iff)
  then have N0: "(0::rat) < of_int N" by simp
  have "(of_int N :: rat) \<le> of_int 100000000000000" using assms(2) by (simp only: of_int_le_iff)
  then have N1: "(of_int N :: rat) \<le> 100000000000000" by simp
  have r: "0 < ?r" "?r \<le> 1000000" using N0 N1 by linarith+
  have "\<bar>?r\<bar> < 1048576" using r by linarith
  then have "\<bar>?r\<bar> < 2 powi 20" by simp
  from nearestDouble_error [OF this] obtain b where
    b: "nearestDouble ?r = Finite b" "\<bar>b - ?r\<bar> \<le> 2 powi (20 - 54)" by auto
  have "(2::rat) powi (20 - 54) = 1 / 17179869184" by (simp add: pow2_neg_numeral)
  then have b': "\<bar>b - ?r\<bar> \<le> 1 / 17179869184" using b(2) by simp
  have prod: "b * ?c = 3602879701896397 * b / 144115188075855872" by simp
  have bc: "\<bar>b * ?c - ?r / 40\<bar> \<le> 1 / 274877906944" unfolding prod using b' r by linarith
  have "\<bar>b * ?c\<bar> < 32768" unfolding prod using b' r by linarith
  then have "\<bar>b * ?c\<bar> < 2 powi 15" by simp
  from nearestDouble_error [OF this] obtain p where
    p: "nearestDouble (b * ?c) = Finite p" "\<bar>p - b * ?c\<bar> \<le> 2 powi (15 - 54)" by auto
  have "(2::rat) powi (15 - 54) = 1 / 549755813888" by (simp add: pow2_neg_numeral)
  then have p': "\<bar>p - b * ?c\<bar> \<le> 1 / 549755813888" using p(2) by simp
  have pr: "\<bar>p * 100000000 - of_int N / 40\<bar> \<le> 6 / 10000" using p' bc by linarith
  have "\<bar>p * 100000000\<bar> < 4398046511104" using pr N0 N1 by linarith
  then have "\<bar>p * 100000000\<bar> < 2 powi 42" by simp
  from nearestDouble_error [OF this] obtain y where
    y: "nearestDouble (p * 100000000) = Finite y" "\<bar>y - p * 100000000\<bar> \<le> 2 powi (42 - 54)"
    by auto
  have "(2::rat) powi (42 - 54) = 1 / 4096" by (simp add: pow2_neg_numeral)
  then have y': "\<bar>y - p * 100000000\<bar> \<le> 1 / 4096" using y(2) by simp
  have yN: "\<bar>y - of_int N / 40\<bar> < 1 / 40" using y' pr by linarith
  let ?n = "\<lfloor>y + 1 / 2\<rfloor>"
  have near: "\<bar>of_int ?n - of_int N / 40\<bar> \<le> (1 / 2 :: rat)" using yN by (rule round_fortieth)
  have "0 < y + 1 / 2" using yN N0 by linarith
  then have n0: "0 \<le> ?n" by simp
  have "(of_int ?n :: rat) \<le> 2500000000001" using near N1 by linarith
  then have "(of_int ?n :: rat) \<le> of_int 2500000000001" by simp
  then have n1: "?n \<le> 2500000000001" by (simp only: of_int_le_iff)
  have "numMul (decimal8 N) (nearestDouble (25 / 1000)) = Finite p"
    unfolding decimal8_def b(1) literal_0_025 numMul.simps p(1) ..
  then have "roundTo8 (numMul (decimal8 N) (nearestDouble (25 / 1000))) = decimal8 ?n"
    by (simp only: roundTo8_def numMul.simps y(1) Math_round.simps numDiv_units decimal8_def)
  then show ?thesis using near n0 n1 by blast
qed

lemma calculateBountyFees_units:
  assumes "0 < N" and "N \<le> 100000000000000"
  shows "\<exists>n. \<bar>of_int n - of_int N / 40\<bar> \<le> (1 / 2 :: rat) \<and> 0 \<le> n \<and> n \<le> 2500000000001
           \<and> calculateBountyFees (decimal8 N) =
               \<lparr> baseBountyAmount = decimal8 N,
                 clientFeeAmount = decimal8 n,
                 contributorFeeAmount = decimal8 n,
                 totalPlatformFee = decimal8 (n + n),
                 totalPaidByClient = decimal8 (N + n),
                 contributorPayout = decimal8 (N - n) \<rparr>"
proof -
  from fee_units [OF assms] obtain n where
    n: "\<bar>of_int n - of_int N / 40\<bar> \<le> (1 / 2 :: rat)" "0 \<le> n" "n \<le> 2500000000001"
       "roundTo8 (numMul (decimal8 N) (nearestDouble (25 / 1000))) = decimal8 n" by blast
  have base: "roundTo8 (decimal8 N) = decimal8 N" using assms by (intro roundTo8_decimal8) simp
  have tot: "roundTo8 (numAdd (decimal8 n) (decimal8 n)) = decimal8 (n + n)"
    using n(2,3) by (intro decimal8_add) simp_all
  have paid: "roundTo8 (numAdd (decimal8 N) (decimal8 n)) = decimal8 (N + n)"
    using n(2,3) assms by (intro decimal8_add) simp_all
  have pay: "roundTo8 (numSub (decimal8 N) (decimal8 n)) = decimal8 (N - n)"
    using n(2,3) assms by (intro decimal8_sub) simp_all
  have "calculateBountyFees (decimal8 N) =
               \<lparr> baseBountyAmount = decimal8 N,
                 clientFeeAmount = decimal8 n,
                 contributorFeeAmount = decimal8 n,
                 totalPlatformFee = decimal8 (n + n),
                 totalPaidByClient = decimal8 (N + n),
                 contributorPayout = decimal8 (N - n) \<rparr>"
    by (simp only: calculateBountyFees_def Let_def n(4) base tot paid pay)
  then show ?thesis using n(1,2,3) by blast
qed

text \<open>
  Upper and lower bounds of \<open>roundTo8\<close> on positive amounts of any size.
\<close>

lemma roundTo8_between:
  assumes "1 / 1000 \<le> x" and "x < 2 ^ 900"
  shows "\<exists>z. roundTo8 (Finite x) = Finite z
           \<and> x * (999 / 1000) - 1 / 100000000 \<le> z \<and> z \<le> x * (1001 / 1000) + 1 / 100000000"
proof -
  have big: "(100000001 :: rat) * 2 ^ 900 \<le> 2 ^ 1000" by simp
  have x1: "1 / 1000000000 \<le> x * 100000000" "x * 100000000 < 2 ^ 1000"
    using assms big by linarith+
  from nearestDouble_between [OF x1] obtain y where
    y: "nearestDouble (x * 100000000) = Finite y"
       "x * 100000000 - x * 100000000 / 9007199254740992 \<le> y"
       "y \<le> x * 100000000 + x * 100000000 / 9007199254740992" by blast
  let ?n = "\<lfloor>y + 1 / 2\<rfloor>"
  have n: "of_int ?n \<le> y + 1 / 2" "y - 1 / 2 < of_int ?n" by linarith+
  have m: "1 / 1000000000 \<le> (of_int ?n :: rat) / 100000000" "(of_int ?n :: rat) / 100000000 < 2 ^ 1000"
    using n y(2,3) assms big by linarith+
  from nearestDouble_between [OF m] obtain z where
    z: "nearestDouble (of_int ?n / 100000000) = Finite z"
       "of_int ?n / 100000000 - of_int ?n / 100000000 / 9007199254740992 \<le> z"
       "z \<le> of_int ?n / 100000000 + of_int ?n / 100000000 / 9007199254740992" by blast
  have "roundTo8 (Finite x) = Finite z"
    by (simp only: roundTo8_def numMul.simps y(1) Math_round.simps numDiv_units z(1))
  moreover have "x * (999 / 1000) - 1 / 100000000 \<le> z" using z(2) n(2) y(2) assms(1) by linarith
  moreover have "z \<le> x * (1001 / 1000) + 1 / 100000000" using z(3) n(1) y(3) assms(1) by linarith
  ultimately show ?thesis by blast
qed

text \<open>
  The doubles met in the examples: each is given by its binary exponent and its
  significand.
\<close>

lemma double_1_000101: "nearestDouble (1000101 / 1000000) = Finite (1126013622733215 / 1125899906842624)"
proof -
  have "nearestDouble (1000101 / 1000000) = Finite (of_int (4504054490932860) * 2 powi (0 - 52))"
    by (rule nearestDouble_eqI) (simp_all add: pow2_neg_numeral)
  then show ?thesis by (simp add: pow2_neg_numeral)
qed

lemma fee_product_1_000101: "nearestDouble (4056891625404327695345900726355 / 162259276829213363391578010288128) = Finite (225202724546643 / 9007199254740992)"
proof -
  have "nearestDouble (4056891625404327695345900726355 / 162259276829213363391578010288128) = Finite (of_int (7206487185492576) * 2 powi (- 6 - 52))"
    by (rule nearestDouble_eqI) (simp_all add: pow2_neg_numeral)
  then show ?thesis by (simp add: pow2_neg_numeral)
qed

lemma fee_1_000101_scaled: "nearestDouble (87969814276032421875 / 35184372088832) = Finite (5369251359621119 / 2147483648)"
proof -
  have "nearestDouble (87969814276032421875 / 35184372088832) = Finite (of_int (5369251359621119) * 2 powi (21 - 52))"
    by (rule nearestDouble_eqI) (simp_all add: pow2_neg_numeral)
  then show ?thesis by (simp add: pow2_neg_numeral)
qed

lemma fee_1_000101_round: "\<lfloor>5369252433362943 / 2147483648 :: rat\<rfloor> = 2500252"
  by (simp add: floor_eq_iff)

lemma double_0_0000002: "nearestDouble (1 / 5000000) = Finite (944473296573929 / 4722366482869645213696)"
proof -
  have "nearestDouble (1 / 5000000) = Finite (of_int (7555786372591432) * 2 powi (- 23 - 52))"
    by (rule nearestDouble_eqI) (simp_all add: pow2_neg_numeral)
  then show ?thesis by (simp add: pow2_neg_numeral)
qed

lemma fee_product_0_0000002: "nearestDouble (3402823669209384669544209233813 / 680564733841876926926749214863536422912) = Finite (3022314549036573 / 604462909807314587353088)"
proof -
  have "nearestDouble (3402823669209384669544209233813 / 680564733841876926926749214863536422912) = Finite (of_int (6044629098073146) * 2 powi (- 28 - 52))"
    by (rule nearestDouble_eqI) (simp_all add: pow2_neg_numeral)
  then show ?thesis by (simp add: pow2_neg_numeral)
qed

lemma fee_0_0000002_scaled: "nearestDouble (1180591620717411328125 / 2361183241434822606848) = Finite (1 / 2)"
proof -
  have "nearestDouble (1180591620717411328125 / 2361183241434822606848) = Finite (of_int (4503599627370496) * 2 powi (- 1 - 52))"
    by (rule nearestDouble_eqI) (simp_all add: pow2_neg_numeral)
  then show ?thesis by (simp add: pow2_neg_numeral)
qed

lemma fee_0_0000002_round: "\<lfloor>1 :: rat\<rfloor> = 1"
  by (simp add: floor_eq_iff)

lemma double_1_000000005: "nearestDouble (200000001 / 200000000) = Finite (2251799824944247 / 2251799813685248)"
proof -
  have "nearestDouble (200000001 / 200000000) = Finite (of_int (4503599649888494) * 2 powi (0 - 52))"
    by (rule nearestDouble_eqI) (simp_all add: pow2_neg_numeral)
  then show ?thesis by (simp add: pow2_neg_numeral)
qed

lemma fee_product_1_000000005: "nearestDouble (8112963882025487580710695178059 / 324518553658426726783156020576256) = Finite (7205759439821591 / 288230376151711744)"
proof -
  have "nearestDouble (8112963882025487580710695178059 / 324518553658426726783156020576256) = Finite (of_int (7205759439821591) * 2 powi (- 6 - 52))"
    by (rule nearestDouble_eqI) (simp_all add: pow2_neg_numeral)
  then show ?thesis by (simp add: pow2_neg_numeral)
qed

lemma fee_1_000000005_scaled: "nearestDouble (2814749781180308984375 / 1125899906842624) = Finite (2684354573421773 / 1073741824)"
proof -
  have "nearestDouble (2814749781180308984375 / 1125899906842624) = Finite (of_int (5368709146843546) * 2 powi (21 - 52))"
    by (rule nearestDouble_eqI) (simp_all add: pow2_neg_numeral)
  then show ?thesis by (simp add: pow2_neg_numeral)
qed

lemma fee_1_000000005_round: "\<lfloor>2684355110292685 / 1073741824 :: rat\<rfloor> = 2500000"
  by (simp add: floor_eq_iff)

lemma paid_sum_1_000000005: "nearestDouble (147718068498328205 / 144115188075855872) = Finite (1154047410143189 / 1125899906842624)"
proof -
  have "nearestDouble (147718068498328205 / 144115188075855872) = Finite (of_int (4616189640572756) * 2 powi (0 - 52))"
    by (rule nearestDouble_eqI) (simp_all add: pow2_neg_numeral)
  then show ?thesis by (simp add: pow2_neg_numeral)
qed

lemma paid_1_000000005_scaled: "nearestDouble (450799769587183203125 / 4398046511104) = Finite (6878658593554431 / 67108864)"
proof -
  have "nearestDouble (450799769587183203125 / 4398046511104) = Finite (of_int (6878658593554431) * 2 powi (26 - 52))"
    by (rule nearestDouble_eqI) (simp_all add: pow2_neg_numeral)
  then show ?thesis by (simp add: pow2_neg_numeral)
qed

lemma paid_1_000000005_round: "\<lfloor>6878658627108863 / 67108864 :: rat\<rfloor> = 102500000"
  by (simp add: floor_eq_iff)

lemma payout_diff_1_000000005: "nearestDouble (140512309094535411 / 144115188075855872) = Finite (8782019318408463 / 9007199254740992)"
proof -
  have "nearestDouble (140512309094535411 / 144115188075855872) = Finite (of_int (8782019318408463) * 2 powi (- 1 - 52))"
    by (rule nearestDouble_eqI) (simp_all add: pow2_neg_numeral)
  then show ?thesis by (simp add: pow2_neg_numeral)
qed

lemma payout_1_000000005_scaled: "nearestDouble (3430476296253305859375 / 35184372088832) = Finite (195000001 / 2)"
proof -
  have "nearestDouble (3430476296253305859375 / 35184372088832) = Finite (of_int (6543114273554432) * 2 powi (26 - 52))"
    by (rule nearestDouble_eqI) (simp_all add: pow2_neg_numeral)
  then show ?thesis by (simp add: pow2_neg_numeral)
qed

lemma payout_1_000000005_round: "\<lfloor>97500001 :: rat\<rfloor> = 97500001"
  by (simp add: floor_eq_iff)

lemma base_1_000000005_scaled: "nearestDouble (879609306618846484375 / 8796093022208) = Finite (200000001 / 2)"
proof -
  have "nearestDouble (879609306618846484375 / 8796093022208) = Finite (of_int (6710886433554432) * 2 powi (26 - 52))"
    by (rule nearestDouble_eqI) (simp_all add: pow2_neg_numeral)
  then show ?thesis by (simp add: pow2_neg_numeral)
qed

lemma base_1_000000005_round: "\<lfloor>100000001 :: rat\<rfloor> = 100000001"
  by (simp add: floor_eq_iff)

lemma decimal8_22: "nearestDouble (11 / 50000000) = Finite (519460313115661 / 2361183241434822606848)"
proof -
  have "nearestDouble (11 / 50000000) = Finite (of_int (8311365009850576) * 2 powi (- 23 - 52))"
    by (rule nearestDouble_eqI) (simp_all add: pow2_neg_numeral)
  then show ?thesis by (simp add: pow2_neg_numeral)
qed

lemma decimal8_2: "nearestDouble (1 / 50000000) = Finite (3022314549036573 / 151115727451828646838272)"
proof -
  have "nearestDouble (1 / 50000000) = Finite (of_int (6044629098073146) * 2 powi (- 26 - 52))"
    by (rule nearestDouble_eqI) (simp_all add: pow2_neg_numeral)
  then show ?thesis by (simp add: pow2_neg_numeral)
qed

lemma difference_22_2: "nearestDouble (30223145490365731 / 151115727451828646838272) = Finite (7555786372591433 / 37778931862957161709568)"
proof -
  have "nearestDouble (30223145490365731 / 151115727451828646838272) = Finite (of_int (7555786372591433) * 2 powi (- 23 - 52))"
    by (rule nearestDouble_eqI) (simp_all add: pow2_neg_numeral)
  then show ?thesis by (simp add: pow2_neg_numeral)
qed








lemma decimal8_values:
  "decimal8 10000000000 = Finite 100" "decimal8 250000000 = Finite (5 / 2)"
  "decimal8 500000000 = Finite 5" "decimal8 10250000000 = Finite (205 / 2)"
  "decimal8 9750000000 = Finite (195 / 2)"
proof -
  have "nearestDouble (of_int 100 * 2 powi 0) = Finite (of_int 100 * 2 powi 0)"
    by (rule nearestDouble_exact [OF refl]) simp_all
  then show "decimal8 10000000000 = Finite 100" by (simp add: decimal8_def)
  have "nearestDouble (of_int 5 * 2 powi (- 1)) = Finite (of_int 5 * 2 powi (- 1))"
    by (rule nearestDouble_exact [OF refl]) simp_all
  then show "decimal8 250000000 = Finite (5 / 2)" by (simp add: decimal8_def)
  have "nearestDouble (of_int 5 * 2 powi 0) = Finite (of_int 5 * 2 powi 0)"
    by (rule nearestDouble_exact [OF refl]) simp_all
  then show "decimal8 500000000 = Finite 5" by (simp add: decimal8_def)
  have "nearestDouble (of_int 205 * 2 powi (- 1)) = Finite (of_int 205 * 2 powi (- 1))"
    by (rule nearestDouble_exact [OF refl]) simp_all
  then show "decimal8 10250000000 = Finite (205 / 2)" by (simp add: decimal8_def)
  have "nearestDouble (of_int 195 * 2 powi (- 1)) = Finite (of_int 195 * 2 powi (- 1))"
    by (rule nearestDouble_exact [OF refl]) simp_all
  then show "decimal8 9750000000 = Finite (195 / 2)" by (simp add: decimal8_def)
qed

lemmas fee_defs = calculateBountyFees_def Let_def parseFloat_def roundTo8_def decimal8_def
  literal_fortieth nearestDouble_zero

lemma fees_100:
  "calculateBountyFees (parseFloat 100) =
       \<lparr> baseBountyAmount = Finite 100, clientFeeAmount = Finite (5 / 2),
         contributorFeeAmount = Finite (5 / 2), totalPlatformFee = Finite 5,
         totalPaidByClient = Finite (205 / 2), contributorPayout = Finite (195 / 2) \<rparr>"
proof -
  have "(0::int) < 10000000000" "(10000000000::int) \<le> 100000000000000" by simp_all
  from calculateBountyFees_units [OF this] obtain n where
    n: "\<bar>of_int n - of_int 10000000000 / 40\<bar> \<le> (1 / 2 :: rat)"
    and f: "calculateBountyFees (decimal8 10000000000) =
               \<lparr> baseBountyAmount = decimal8 10000000000,
                 clientFeeAmount = decimal8 n,
                 contributorFeeAmount = decimal8 n,
                 totalPlatformFee = decimal8 (n + n),
                 totalPaidByClient = decimal8 (10000000000 + n),
                 contributorPayout = decimal8 (10000000000 - n) \<rparr>"
    by blast
  have "\<bar>of_int n - (of_int 250000000 :: rat)\<bar> < 1" using n by simp
  then have "n = 250000000" by (rule nearest_int_unique)
  then show ?thesis
    using f decimal8_values by (simp add: parseFloat_units [of 10000000000, simplified])
qed




text \<open>
  Where 2.5% of the base lies halfway between two amounts, the fee goes down for the
  base amount 1.000101 (2.5% is 0.025002525, the fee 0.02500252) and up for the base
  amount 0.0000002 (2.5% is 0.000000005, the fee 0.00000001).
\<close>

lemma tie_rounds_down:
  "clientFeeAmount (calculateBountyFees (parseFloat (1000101 / 1000000))) = decimal8 2500252"
  by (simp add: fee_defs double_1_000101 fee_product_1_000101 fee_1_000101_scaled fee_1_000101_round)

lemma tie_rounds_up:
  "clientFeeAmount (calculateBountyFees (parseFloat (2 / 10000000))) = decimal8 1"
  by (simp add: fee_defs double_0_0000002 fee_product_0_0000002 fee_0_0000002_scaled
        fee_0_0000002_round)

lemma fees_1_000101:
  "calculateBountyFees (parseFloat (1000101 / 1000000)) =
     \<lparr> baseBountyAmount = decimal8 100010100, clientFeeAmount = decimal8 2500252,
       contributorFeeAmount = decimal8 2500252, totalPlatformFee = decimal8 5000504,
       totalPaidByClient = decimal8 102510352, contributorPayout = decimal8 97509848 \<rparr>"
proof -
  have b: "parseFloat (1000101 / 1000000) = decimal8 100010100"
    by (simp add: parseFloat_def decimal8_def)
  have fee: "roundTo8 (numMul (decimal8 100010100) (nearestDouble (25 / 1000))) = decimal8 2500252"
    using tie_rounds_down by (simp add: calculateBountyFees_def Let_def b)
  have base: "roundTo8 (decimal8 100010100) = decimal8 100010100"
    by (rule roundTo8_decimal8) simp
  have tot: "roundTo8 (numAdd (decimal8 2500252) (decimal8 2500252)) = decimal8 (2500252 + 2500252)"
    by (rule decimal8_add) simp_all
  have paid: "roundTo8 (numAdd (decimal8 100010100) (decimal8 2500252)) = decimal8 (100010100 + 2500252)"
    by (rule decimal8_add) simp_all
  have pay: "roundTo8 (numSub (decimal8 100010100) (decimal8 2500252)) = decimal8 (100010100 - 2500252)"
    by (rule decimal8_sub) simp_all
  show ?thesis unfolding b
    by (simp only: calculateBountyFees_def Let_def fee base tot paid pay) simp
qed

text \<open>
  Claim C7, as amended. For a base amount of \<open>N\<close> units of \<open>10\<^sup>-\<^sup>8\<close> with
  \<open>0 < N \<le> 10\<^sup>1\<^sup>4\<close>, the total paid by the client minus the total platform fee, rounded
  to 8 decimals as the function rounds every amount, is the contributor payout, and the
  contributor payout is the base minus the contributor fee, rounded. What gives back the
  base is the total paid minus the client fee, rounded. From 21 units on, the total paid
  minus the total platform fee is not the base.
\<close>

theorem calculateBountyFees_paid_minus_fee:
  assumes "0 < N" and "N \<le> 100000000000000"
    and "fees = calculateBountyFees (parseFloat (of_int N / 100000000))"
  shows "roundTo8 (numSub (totalPaidByClient fees) (totalPlatformFee fees)) = contributorPayout fees
       \<and> contributorPayout fees = roundTo8 (numSub (baseBountyAmount fees) (contributorFeeAmount fees))
       \<and> roundTo8 (numSub (totalPaidByClient fees) (clientFeeAmount fees)) = baseBountyAmount fees
       \<and> baseBountyAmount fees = parseFloat (of_int N / 100000000)
       \<and> (21 \<le> N \<longrightarrow>
            roundTo8 (numSub (totalPaidByClient fees) (totalPlatformFee fees)) \<noteq> baseBountyAmount fees)"
proof -
  from calculateBountyFees_units [OF assms(1,2)] obtain n where
    n: "\<bar>of_int n - of_int N / 40\<bar> \<le> (1 / 2 :: rat)" "0 \<le> n" "n \<le> 2500000000001"
    and f: "fees = \<lparr> baseBountyAmount = decimal8 N,
                 clientFeeAmount = decimal8 n,
                 contributorFeeAmount = decimal8 n,
                 totalPlatformFee = decimal8 (n + n),
                 totalPaidByClient = decimal8 (N + n),
                 contributorPayout = decimal8 (N - n) \<rparr>"
    unfolding assms(3) parseFloat_units by blast
  have a: "roundTo8 (numSub (decimal8 (N + n)) (decimal8 (n + n))) = decimal8 (N + n - (n + n))"
    using n(2,3) assms(1,2) by (intro decimal8_sub) simp_all
  have b: "roundTo8 (numSub (decimal8 N) (decimal8 n)) = decimal8 (N - n)"
    using n(2,3) assms(1,2) by (intro decimal8_sub) simp_all
  have c: "roundTo8 (numSub (decimal8 (N + n)) (decimal8 n)) = decimal8 (N + n - n)"
    using n(2,3) assms(1,2) by (intro decimal8_sub) simp_all
  have d: "decimal8 (N - n) \<noteq> decimal8 N" if "21 \<le> N"
  proof
    assume "decimal8 (N - n) = decimal8 N"
    then have "N - n = N" using n(2,3) assms(1,2) by (intro decimal8_inj) simp_all
    then have "n = 0" by simp
    moreover have "(of_int 21 :: rat) \<le> of_int N" using that by (simp only: of_int_le_iff)
    ultimately show False using n(1) by simp
  qed
  have e: "N + n - (n + n) = N - n" "N + n - n = N" by simp_all
  show ?thesis unfolding f using a b c d by (simp add: e parseFloat_units)
qed

text \<open>
  A base amount of 100: 102.5 minus 5 is the payout 97.5, and 102.5 minus 2.5 is the
  base.
\<close>

theorem calculateBountyFees_paid_minus_fee_witness:
  "(0::int) < 10000000000 \<and> (10000000000::int) \<le> 100000000000000
   \<and> roundTo8 (numSub (totalPaidByClient (calculateBountyFees (parseFloat 100)))
                          (totalPlatformFee (calculateBountyFees (parseFloat 100))))
       = contributorPayout (calculateBountyFees (parseFloat 100))
   \<and> roundTo8 (numSub (totalPaidByClient (calculateBountyFees (parseFloat 100)))
                          (clientFeeAmount (calculateBountyFees (parseFloat 100))))
       = parseFloat 100
   \<and> roundTo8 (numSub (totalPaidByClient (calculateBountyFees (parseFloat 100)))
                          (totalPlatformFee (calculateBountyFees (parseFloat 100))))
       \<noteq> parseFloat 100"
proof -
  have e: "calculateBountyFees (parseFloat 100)
      = calculateBountyFees (parseFloat (of_int 10000000000 / 100000000))" by simp
  have p: "parseFloat (of_int 10000000000 / 100000000) = parseFloat 100" by simp
  have "(0::int) < 10000000000" "(10000000000::int) \<le> 100000000000000" by simp_all
  from calculateBountyFees_paid_minus_fee [OF this e]
  have a: "roundTo8 (numSub (totalPaidByClient (calculateBountyFees (parseFloat 100)))
                          (totalPlatformFee (calculateBountyFees (parseFloat 100))))
       = contributorPayout (calculateBountyFees (parseFloat 100))"
    and b: "roundTo8 (numSub (totalPaidByClient (calculateBountyFees (parseFloat 100)))
                          (clientFeeAmount (calculateBountyFees (parseFloat 100))))
       = baseBountyAmount (calculateBountyFees (parseFloat 100))"
    and c: "baseBountyAmount (calculateBountyFees (parseFloat 100)) = parseFloat 100"
    and d: "(21::int) \<le> 10000000000 \<longrightarrow>
            roundTo8 (numSub (totalPaidByClient (calculateBountyFees (parseFloat 100)))
                          (totalPlatformFee (calculateBountyFees (parseFloat 100))))
       \<noteq> baseBountyAmount (calculateBountyFees (parseFloat 100))"
    unfolding p by blast+
  have "roundTo8 (numSub (totalPaidByClient (calculateBountyFees (parseFloat 100)))
                          (totalPlatformFee (calculateBountyFees (parseFloat 100))))
       \<noteq> parseFloat 100" using d unfolding c by simp
  moreover have "roundTo8 (numSub (totalPaidByClient (calculateBountyFees (parseFloat 100)))
                          (clientFeeAmount (calculateBountyFees (parseFloat 100))))
       = parseFloat 100" using b unfolding c .
  ultimately show ?thesis using a by simp
qed

text \<open>
  Claim C7 as stated fails on the base amount 100: the client pays 102.5, the platform
  fee is 5, and 102.5 minus 5 is 97.5, not 100.
\<close>

theorem calculateBountyFees_round_trip_counterexample:
  "totalPaidByClient (calculateBountyFees (parseFloat 100)) = Finite (205 / 2)
   \<and> totalPlatformFee (calculateBountyFees (parseFloat 100)) = Finite 5
   \<and> numSub (totalPaidByClient (calculateBountyFees (parseFloat 100)))
             (totalPlatformFee (calculateBountyFees (parseFloat 100))) = Finite (195 / 2)
   \<and> parseFloat 100 = Finite 100
   \<and> numSub (totalPaidByClient (calculateBountyFees (parseFloat 100)))
             (totalPlatformFee (calculateBountyFees (parseFloat 100))) \<noteq> parseFloat 100"
proof -
  have "nearestDouble (of_int 195 * 2 powi (- 1)) = Finite (of_int 195 * 2 powi (- 1))"
    by (rule nearestDouble_exact [OF refl]) simp_all
  then have d: "nearestDouble (195 / 2) = Finite (195 / 2)" by simp
  have "nearestDouble (of_int 100 * 2 powi 0) = Finite (of_int 100 * 2 powi 0)"
    by (rule nearestDouble_exact [OF refl]) simp_all
  then have p: "parseFloat 100 = Finite 100" by (simp add: parseFloat_def)
  have a: "totalPaidByClient (calculateBountyFees (parseFloat 100)) = Finite (205 / 2)"
    and b: "totalPlatformFee (calculateBountyFees (parseFloat 100)) = Finite 5"
    by (simp_all only: fees_100 fee_breakdown.select_convs)
  show ?thesis by (simp only: a b) (simp add: p d)
qed

text \<open>
  Without the rounding to 8 decimals the difference is not the payout: of a base amount
  of 0.00000021 the client pays 0.00000022, the fees are 0.00000002, and the double
  subtraction misses the number of 0.00000020 by one unit in the last place.
\<close>

lemma unrounded_difference:
  "calculateBountyFees (parseFloat (21 / 100000000)) =
     \<lparr> baseBountyAmount = decimal8 21, clientFeeAmount = decimal8 1,
       contributorFeeAmount = decimal8 1, totalPlatformFee = decimal8 2,
       totalPaidByClient = decimal8 22, contributorPayout = decimal8 20 \<rparr>"
  "numSub (decimal8 22) (decimal8 2) \<noteq> decimal8 20"
proof -
  have "(0::int) < 21" "(21::int) \<le> 100000000000000" by simp_all
  from calculateBountyFees_units [OF this] obtain n where
    n: "\<bar>of_int n - of_int 21 / 40\<bar> \<le> (1 / 2 :: rat)"
    and f: "calculateBountyFees (decimal8 21) =
               \<lparr> baseBountyAmount = decimal8 21,
                 clientFeeAmount = decimal8 n,
                 contributorFeeAmount = decimal8 n,
                 totalPlatformFee = decimal8 (n + n),
                 totalPaidByClient = decimal8 (21 + n),
                 contributorPayout = decimal8 (21 - n) \<rparr>"
    by blast
  have "\<bar>of_int n - (21 / 40 :: rat)\<bar> \<le> 1 / 2" using n by simp
  then have "\<bar>of_int n - (1 :: rat)\<bar> < 1" by linarith
  then have "\<bar>of_int n - (of_int 1 :: rat)\<bar> < 1" by simp
  then have "n = 1" by (rule nearest_int_unique)
  then show "calculateBountyFees (parseFloat (21 / 100000000)) =
     \<lparr> baseBountyAmount = decimal8 21, clientFeeAmount = decimal8 1,
       contributorFeeAmount = decimal8 1, totalPlatformFee = decimal8 2,
       totalPaidByClient = decimal8 22, contributorPayout = decimal8 20 \<rparr>"
    using f by (simp add: parseFloat_units [of 21, simplified])
  show "numSub (decimal8 22) (decimal8 2) \<noteq> decimal8 20"
    by (simp add: decimal8_def decimal8_22 decimal8_2 difference_22_2 double_0_0000002)
qed

text \<open>
  A base amount with a ninth decimal, 1.000000005: the amounts returned are 1.00000001,
  0.025, 0.05, 1.025 and 0.97500001, and the total paid minus the total fee, 0.975 after
  rounding, is not the payout.
\<close>

lemma fees_1_000000005:
  "calculateBountyFees (parseFloat (1000000005 / 1000000000)) =
     \<lparr> baseBountyAmount = decimal8 100000001, clientFeeAmount = decimal8 2500000,
       contributorFeeAmount = decimal8 2500000, totalPlatformFee = decimal8 5000000,
       totalPaidByClient = decimal8 102500000, contributorPayout = decimal8 97500001 \<rparr>"
  "roundTo8 (numSub (decimal8 102500000) (decimal8 5000000)) = decimal8 97500000"
  "decimal8 97500000 \<noteq> decimal8 97500001"
proof -
  have fee: "roundTo8 (numMul (parseFloat (1000000005 / 1000000000)) (nearestDouble (25 / 1000)))
      = decimal8 2500000"
    by (simp add: fee_defs double_1_000000005 fee_product_1_000000005
          fee_1_000000005_scaled fee_1_000000005_round)
  have base: "roundTo8 (parseFloat (1000000005 / 1000000000)) = decimal8 100000001"
    by (simp add: fee_defs double_1_000000005 base_1_000000005_scaled base_1_000000005_round)
  have tot: "roundTo8 (numAdd (decimal8 2500000) (decimal8 2500000)) = decimal8 (2500000 + 2500000)"
    by (rule decimal8_add) simp_all
  have paid: "roundTo8 (numAdd (parseFloat (1000000005 / 1000000000)) (decimal8 2500000))
      = decimal8 102500000"
    by (simp add: fee_defs double_1_000000005 paid_sum_1_000000005
          paid_1_000000005_scaled paid_1_000000005_round)
  have pay: "roundTo8 (numSub (parseFloat (1000000005 / 1000000000)) (decimal8 2500000))
      = decimal8 97500001"
    by (simp add: fee_defs double_1_000000005 payout_diff_1_000000005
          payout_1_000000005_scaled payout_1_000000005_round)
  show "calculateBountyFees (parseFloat (1000000005 / 1000000000)) =
     \<lparr> baseBountyAmount = decimal8 100000001, clientFeeAmount = decimal8 2500000,
       contributorFeeAmount = decimal8 2500000, totalPlatformFee = decimal8 5000000,
       totalPaidByClient = decimal8 102500000, contributorPayout = decimal8 97500001 \<rparr>"
    by (simp only: calculateBountyFees_def Let_def fee base tot paid pay) simp
  have "roundTo8 (numSub (decimal8 102500000) (decimal8 5000000)) = decimal8 (102500000 - 5000000)"
    by (rule decimal8_sub) simp_all
  then show "roundTo8 (numSub (decimal8 102500000) (decimal8 5000000)) = decimal8 97500000" by simp
  show "decimal8 97500000 \<noteq> decimal8 97500001"
    using decimal8_inj [of 97500000 97500001] by auto
qed

section \<open>Properties of the atomic claim\<close>

lemma find_setBounty_same:
  assumes "\<And>b. bountyId (f b) = bountyId b"
  shows "find (\<lambda>b. bountyId b = i) (setBounty i f rows)
       = map_option f (find (\<lambda>b. bountyId b = i) rows)"
  using assms by (induction rows) (simp_all add: setBounty_def)

lemma find_setBounty_other:
  assumes "\<And>b. bountyId (f b) = bountyId b" and "j \<noteq> i"
  shows "find (\<lambda>b. bountyId b = j) (setBounty i f rows) = find (\<lambda>b. bountyId b = j) rows"
  using assms by (induction rows) (simp_all add: setBounty_def)

lemma getCommunityBounty_setBounty:
  assumes "\<And>b. bountyId (f b) = bountyId b"
  shows "getCommunityBounty (s\<lparr>communityBounties := setBounty i f (communityBounties s)\<rparr>) j
    = (if j = i then map_option f (getCommunityBounty s i) else getCommunityBounty s j)"
  using assms by (simp add: getCommunityBounty_def find_setBounty_same find_setBounty_other)

lemma getUserById_setBounty:
  "getUserById (s\<lparr>communityBounties := rows\<rparr>) uid = getUserById s uid"
  by (simp add: getUserById_def)

lemma bountyId_claimFields: "bountyId (claimFields uid gh pr url tm b) = bountyId b"
  by (simp add: claimFields_def)

lemma status_claimFields: "status (claimFields uid gh pr url tm b) = claimed"
  by (simp add: claimFields_def)

lemma claim_funded:
  assumes "getCommunityBounty s bid = Some b" and "status b = funded"
    and "getUserById s uid \<noteq> None"
  shows "claimCommunityBountyAtomic s bid uid gh pr url tm
     = (s\<lparr>communityBounties := setBounty bid (claimFields uid gh pr url tm) (communityBounties s)\<rparr>,
        Inr (claimFields uid gh pr url tm b))"
  using assms by (simp add: claimCommunityBountyAtomic_def)





text \<open>
  The claim route on top of it: a bounty that is not funded is refused with status 400
  before the store is touched; a funded one is handed to the atomic claim for a claimer
  that the route has just read from the users, so the foreign key holds.
\<close>

lemma claimRoute_not_funded:
  assumes "claimUser req = Some uid" and "uid \<noteq> 0" and "claimId req = Some bid"
    and "\<not> falsyNum (claimPrNumber req)"
    and "getCommunityBounty s bid = Some b" and "status b \<noteq> funded"
  shows "claimRoute env s req =
     (s, Response 400 (''Bounty is not available for claiming (status: '' @ statusName (status b) @ '')''))"
  using assms by (simp add: claimRoute_def falsyNum_def)

lemma claimRoute_funded:
  assumes "claimUser req = Some uid" and "uid \<noteq> 0" and "claimId req = Some bid"
    and "claimPrNumber req = Some pr" and "pr \<noteq> 0"
    and "getCommunityBounty s bid = Some b" and "status b = funded"
    and "getUserById s uid = Some u" and "githubUsername u = Some gh" and "gh \<noteq> []"
    and "\<not> falsyStr (xdcWalletAddress u)"
  shows "claimRoute env s req =
     (fst (claimCommunityBountyAtomic s bid uid gh pr (claimPrUrl req) (routeNow env)),
      Response 200 (''Bounty claimed successfully. Payout will be processed ''
                      @ ''automatically after your PR is merged.''))"
  using assms by (simp add: claimRoute_def falsyNum_def falsyStr_def claim_funded)

lemma claimRoute_unauthenticated:
  assumes "claimUser req = None \<or> claimUser req = Some 0"
  shows "claimRoute env s req = (s, Response 401 ''Not authenticated'')"
  using assms by (auto simp: claimRoute_def falsyNum_def)




subsection \<open>Two concurrent claims\<close>

text \<open>
  The interleaved model agrees with the one-step function when a transaction runs alone,
  and whatever the schedule, of two transactions of users that both return on a funded
  bounty one has the claimed bounty and the other the error "not claimable (status:
  claimed)".
\<close>

lemma raceInv_start:
  assumes "getCommunityBounty s bid = Some b" and "status b = funded"
    and "\<And>t. getUserById s (byUser (who t)) \<noteq> None"
  shows "raceInv bid who (startRace s)"
  using assms by (simp add: raceInv_def raceOutcome_def startRace_def hasReturned_def)

lemma not_returned_pending: "\<not> hasReturned x \<Longrightarrow> lostOrPending x"
  by (cases x) (simp_all add: hasReturned_def lostOrPending_def)

lemma raceOutcome_acquire:
  assumes "raceOutcome st f" and "f t = NotStarted"
  shows "raceOutcome st (f(t := HoldsRow row))"
proof -
  from assms(1) consider
      (unclaimed) "st = funded" "\<forall>t. \<not> hasReturned (f t)"
    | (taken) w where "st = claimed" "won (f w)" "\<forall>t. t \<noteq> w \<longrightarrow> lostOrPending (f t)"
    unfolding raceOutcome_def by blast
  then show ?thesis
  proof cases
    case unclaimed
    then show ?thesis by (simp add: raceOutcome_def hasReturned_def)
  next
    case taken
    have "w \<noteq> t" using taken(2) assms(2) by (auto simp: won_def)
    then have "won ((f(t := HoldsRow row)) w)
        \<and> (\<forall>t'. t' \<noteq> w \<longrightarrow> lostOrPending ((f(t := HoldsRow row)) t'))"
      using taken by (simp add: lostOrPending_def)
    then show ?thesis using taken(1) unfolding raceOutcome_def by blast
  qed
qed

lemma raceOutcome_win:
  assumes "raceOutcome funded f"
  shows "raceOutcome claimed (f(t := Returned (Inr v)))"
proof -
  from assms have "\<forall>t. \<not> hasReturned (f t)" by (simp add: raceOutcome_def)
  then have "won ((f(t := Returned (Inr v))) t)
      \<and> (\<forall>t'. t' \<noteq> t \<longrightarrow> lostOrPending ((f(t := Returned (Inr v))) t'))"
    by (simp add: won_def not_returned_pending)
  then show ?thesis unfolding raceOutcome_def by blast
qed

lemma raceOutcome_lose:
  assumes "raceOutcome st f" and "st \<noteq> funded" and "f t = HoldsRow row"
  shows "st = claimed"
    and "raceOutcome claimed (f(t := Returned (Inl (BountyNotClaimable claimed))))"
proof -
  from assms(1,2) obtain w where w: "st = claimed" "won (f w)"
      "\<forall>t. t \<noteq> w \<longrightarrow> lostOrPending (f t)"
    unfolding raceOutcome_def by blast
  have "w \<noteq> t" using w(2) assms(3) by (auto simp: won_def)
  then have "won ((f(t := Returned (Inl (BountyNotClaimable claimed)))) w)
      \<and> (\<forall>t'. t' \<noteq> w \<longrightarrow> lostOrPending ((f(t := Returned (Inl (BountyNotClaimable claimed)))) t'))"
    using w by (simp add: lostOrPending_def)
  then show "raceOutcome claimed (f(t := Returned (Inl (BountyNotClaimable claimed))))"
    unfolding raceOutcome_def by blast
  show "st = claimed" by (rule w(1))
qed

lemma raceOutcome_both_returned:
  assumes "raceOutcome st f" and "f TxA = Returned x" and "f TxB = Returned y"
  shows "(\<exists>v. x = Inr v \<and> y = Inl (BountyNotClaimable claimed))
       \<or> (\<exists>v. y = Inr v \<and> x = Inl (BountyNotClaimable claimed))"
proof -
  have "\<not> (\<forall>t. \<not> hasReturned (f t))" using assms(2) by (auto simp: hasReturned_def)
  with assms(1) obtain w where w: "won (f w)" "\<forall>t. t \<noteq> w \<longrightarrow> lostOrPending (f t)"
    unfolding raceOutcome_def by blast
  show ?thesis
  proof (cases w)
    case TxA
    then have "lostOrPending (f TxB)" using w(2) by simp
    with w(1) TxA assms(2,3) show ?thesis by (auto simp: won_def lostOrPending_def)
  next
    case TxB
    then have "lostOrPending (f TxA)" using w(2) by simp
    with w(1) TxB assms(2,3) show ?thesis by (auto simp: won_def lostOrPending_def)
  qed
qed

lemma bountyId_claimFieldsOf: "bountyId (claimFieldsOf c b) = bountyId b"
  by (simp add: claimFieldsOf_def bountyId_claimFields)

lemma status_claimFieldsOf: "status (claimFieldsOf c b) = claimed"
  by (simp add: claimFieldsOf_def status_claimFields)

lemma raceInv_step:
  assumes inv: "raceInv bid who r"
  shows "raceInv bid who (stepTx bid who r t)"
proof -
  from inv obtain c where c: "getCommunityBounty (raceStore r) bid = Some c"
    and known: "\<And>t. getUserById (raceStore r) (byUser (who t)) \<noteq> None"
    and holds: "\<And>t row. txState r t = HoldsRow row \<Longrightarrow> rowLock r = Some t \<and> row = Some c"
    and locked: "\<And>t. rowLock r = Some t \<Longrightarrow> txState r t = HoldsRow (Some c)"
    and outcome: "raceOutcome (status c) (txState r)"
    unfolding raceInv_def by blast
  show ?thesis
  proof (cases "txState r t")
    case NotStarted
    show ?thesis
    proof (cases "rowLock r")
      case None
      have nobody: "\<And>t' row. txState r t' \<noteq> HoldsRow row"
        using holds None by fastforce
      have step: "stepTx bid who r t
          = r\<lparr> rowLock := Some t, txState := (txState r)(t := HoldsRow (Some c)) \<rparr>"
        using NotStarted None c by (simp add: stepTx_def)
      have out': "raceOutcome (status c) ((txState r)(t := HoldsRow (Some c)))"
        using outcome NotStarted by (rule raceOutcome_acquire)
      show ?thesis
        unfolding step raceInv_def
        using c known nobody out' by (intro exI [of _ c]) simp
    next
      case (Some t')
      then have "stepTx bid who r t = r" using NotStarted c by (simp add: stepTx_def)
      then show ?thesis using inv by simp
    qed
  next
    case (HoldsRow row)
    then have row: "row = Some c" and lock: "rowLock r = Some t" using holds by auto
    have nobody_else: "\<And>t' row'. t' \<noteq> t \<Longrightarrow> txState r t' \<noteq> HoldsRow row'"
      using holds lock by fastforce
    show ?thesis
    proof (cases "status c = funded")
      case True
      let ?upd = "claimFieldsOf (who t)"
      let ?s' = "(raceStore r)\<lparr>communityBounties := setBounty bid ?upd (communityBounties (raceStore r))\<rparr>"
      have step: "stepTx bid who r t
          = r\<lparr> raceStore := ?s', rowLock := None,
                txState := (txState r)(t := Returned (Inr (?upd c))) \<rparr>"
      proof -
        from known [of t] obtain u where "getUserById (raceStore r) (byUser (who t)) = Some u"
          by blast
        then show ?thesis using HoldsRow row True by (simp add: stepTx_def)
      qed
      have get: "getCommunityBounty ?s' bid = Some (?upd c)"
        using getCommunityBounty_setBounty [where f = ?upd and s = "raceStore r" and i = bid and j = bid] c
        by (simp add: bountyId_claimFieldsOf)
      have known': "\<And>t. getUserById ?s' (byUser (who t)) \<noteq> None"
        using known by (simp add: getUserById_setBounty)
      have out': "raceOutcome (status (?upd c)) ((txState r)(t := Returned (Inr (?upd c))))"
        using outcome True by (simp only: status_claimFieldsOf raceOutcome_win)
      show ?thesis
        unfolding step raceInv_def
        using get known' nobody_else out' by (intro exI [of _ "?upd c"]) simp
    next
      case False
      have cl: "status c = claimed"
        using outcome False HoldsRow by (rule raceOutcome_lose(1))
      have out': "raceOutcome claimed ((txState r)(t := Returned (Inl (BountyNotClaimable claimed))))"
        using outcome False HoldsRow by (rule raceOutcome_lose(2))
      have step: "stepTx bid who r t
          = r\<lparr> rowLock := None,
                txState := (txState r)(t := Returned (Inl (BountyNotClaimable claimed))) \<rparr>"
        using HoldsRow row False cl by (simp add: stepTx_def)
      show ?thesis
        unfolding step raceInv_def
        using c known nobody_else out' cl by (intro exI [of _ c]) simp
    qed
  next
    case (Returned x)
    then have "stepTx bid who r t = r" by (simp add: stepTx_def)
    then show ?thesis using inv by simp
  qed
qed

lemma raceInv_run:
  assumes "raceInv bid who r"
  shows "raceInv bid who (runSchedule bid who sched r)"
  unfolding runSchedule_def using assms
proof (induction sched arbitrary: r)
  case Nil
  then show ?case by simp
next
  case (Cons t sched)
  have "raceInv bid who (stepTx bid who r t)" using Cons.prems by (rule raceInv_step)
  then have "raceInv bid who (foldl (stepTx bid who) (stepTx bid who r t) sched)" by (rule Cons.IH)
  then show ?case by simp
qed

lemma raceInv_outcome:
  assumes "raceInv bid who r"
  shows "\<exists>c::community_bounty. raceOutcome (status c) (txState r)"
proof -
  from assms obtain c :: community_bounty where "raceOutcome (status c) (txState r)"
    unfolding raceInv_def by (elim exE conjE)
  then show ?thesis by (rule exI)
qed

lemma race_one_winner:
  assumes "getCommunityBounty s bid = Some b" and "status b = funded"
    and "\<And>t. getUserById s (byUser (who t)) \<noteq> None"
    and "txState (runSchedule bid who sched (startRace s)) TxA = Returned x"
    and "txState (runSchedule bid who sched (startRace s)) TxB = Returned y"
  shows "(\<exists>v. x = Inr v \<and> y = Inl (BountyNotClaimable claimed))
       \<or> (\<exists>v. y = Inr v \<and> x = Inl (BountyNotClaimable claimed))"
proof -
  let ?r = "runSchedule bid who sched (startRace s)"
  have "raceInv bid who ?r" by (rule raceInv_run [OF raceInv_start [OF assms(1,2,3)]])
  then obtain c :: community_bounty where "raceOutcome (status c) (txState ?r)"
    using raceInv_outcome by blast
  then show ?thesis using assms(4,5) by (rule raceOutcome_both_returned)
qed

text \<open>Run alone, the two steps of a transaction are the atomic claim.\<close>

lemma two_steps_are_atomic_claim:
  "raceStore (stepTx bid who (stepTx bid who (startRace s) t) t)
     = fst (claimCommunityBountyAtomic s bid (byUser (who t)) (byGithub (who t)) (byPr (who t))
              (byUrl (who t)) (atTime (who t)))
   \<and> txState (stepTx bid who (stepTx bid who (startRace s) t) t) t
     = Returned (snd (claimCommunityBountyAtomic s bid (byUser (who t)) (byGithub (who t)) (byPr (who t))
              (byUrl (who t)) (atTime (who t))))"
  by (cases "getCommunityBounty s bid")
     (simp_all add: stepTx_def startRace_def claimCommunityBountyAtomic_def claimFieldsOf_def)

lemmas race_defs =
  runSchedule_def stepTx_def startRace_def claimFieldsOf_def exampleClaimants_def
  getCommunityBounty_def getUserById_def setBounty_def storeWith_def fundedBounty_def
  exampleBounty_def exampleUsers_def claimedBounty_def claimFields_def

lemma race_example:
  "txState (runSchedule 1 exampleClaimants [TxA, TxB, TxA, TxB, TxB] (startRace (storeWith fundedBounty))) TxA
     = Returned (Inr claimedBounty)
   \<and> txState (runSchedule 1 exampleClaimants [TxA, TxB, TxA, TxB, TxB] (startRace (storeWith fundedBounty))) TxB
     = Returned (Inl (BountyNotClaimable claimed))
   \<and> getCommunityBounty
        (raceStore (runSchedule 1 exampleClaimants [TxA, TxB, TxA, TxB, TxB] (startRace (storeWith fundedBounty)))) 1
     = Some claimedBounty"
  by (simp add: race_defs)

lemma race_example_reversed:
  "(\<exists>v. txState (runSchedule 1 exampleClaimants [TxB, TxA, TxB, TxA, TxA] (startRace (storeWith fundedBounty))) TxB
     = Returned (Inr v))
   \<and> txState (runSchedule 1 exampleClaimants [TxB, TxA, TxB, TxA, TxA] (startRace (storeWith fundedBounty))) TxA
     = Returned (Inl (BountyNotClaimable claimed))"
  by (simp add: race_defs)

section \<open>Properties of webhook delivery recording\<close>

lemma record_first:
  assumes "\<not> deliveryRecorded s d"
  shows "recordWebhookDelivery False s d ev act repo inst
     = (s\<lparr>webhookDeliveries := webhookDeliveries s @
            [\<lparr> deliveryId = d, eventType = ev, eventAction = act, repositoryId = repo,
               repositoryName = None, installationId = inst, deliveryStatus = processing,
               errorMessage = None \<rparr>]\<rparr>, True)"
  using assms by (simp add: recordWebhookDelivery_def)

lemma record_first_recorded:
  "deliveryRecorded (fst (recordWebhookDelivery False s d ev act repo inst)) d"
  by (simp add: recordWebhookDelivery_def deliveryRecorded_def)

lemma record_duplicate:
  assumes "deliveryRecorded s d"
  shows "recordWebhookDelivery False s d ev act repo inst = (s, False)"
  using assms by (simp add: recordWebhookDelivery_def)

lemma record_fail_open: "recordWebhookDelivery True s d ev act repo inst = (s, True)"
  by (simp add: recordWebhookDelivery_def)

lemma deliveryRecorded_iff:
  "deliveryRecorded s d \<longleftrightarrow> d \<in> set (map deliveryId (webhookDeliveries s))"
  by (auto simp: deliveryRecorded_def)

lemma recorded_markCompleted:
  "deliveryRecorded (markWebhookDeliveryCompleted s d') d = deliveryRecorded s d"
proof -
  have "map deliveryId (webhookDeliveries (markWebhookDeliveryCompleted s d'))
      = map deliveryId (webhookDeliveries s)"
    by (simp add: markWebhookDeliveryCompleted_def comp_def if_distrib cong: if_cong)
  then show ?thesis by (simp only: deliveryRecorded_iff)
qed

lemma recorded_markFailed:
  "deliveryRecorded (markWebhookDeliveryFailed s d' msg) d = deliveryRecorded s d"
proof -
  have "map deliveryId (webhookDeliveries (markWebhookDeliveryFailed s d' msg))
      = map deliveryId (webhookDeliveries s)"
    by (simp add: markWebhookDeliveryFailed_def comp_def if_distrib cong: if_cong)
  then show ?thesis by (simp only: deliveryRecorded_iff)
qed

lemma handler_duplicate:
  assumes "\<not> falsyStr (signature req)" and "signatureValid req"
    and "payloadInstallationId req \<noteq> Some []" and "deliveryRecorded s (delivery req)"
  shows "handleGitHubAppWebhook False s req = (s, Response 200 ''Duplicate delivery ignored'', [])"
proof -
  have inst: "orElse (payloadInstallationId req) ''undefined'' \<noteq> []"
    using assms(3) by (cases "payloadInstallationId req") (simp_all add: orElse_def)
  show ?thesis
    using assms(1,2) inst
    by (simp add: handleGitHubAppWebhook_def Let_def record_duplicate [OF assms(4)])
qed

text \<open>
  Claim C2, as amended. When the insert into the delivery table does not raise, the first
  call of \<open>recordWebhookDelivery\<close> with a delivery id returns true and records the id,
  touching no other table, and every later call with that id returns false and leaves
  the store unchanged; the id stays recorded when a delivery is marked completed or
  failed. When the insert raises, the call returns true whatever the table holds (the
  source's "fail open"). The webhook handler answers a delivery that carries a valid
  signature and an installation id, and that \<open>recordWebhookDelivery\<close> reports as a
  duplicate, with status 200, no change to the store and no processing.
\<close>

theorem recordWebhookDelivery_idempotent:
  "(\<not> deliveryRecorded s d \<longrightarrow>
      snd (recordWebhookDelivery False s d ev act repo inst) = True
      \<and> deliveryRecorded (fst (recordWebhookDelivery False s d ev act repo inst)) d
      \<and> communityBounties (fst (recordWebhookDelivery False s d ev act repo inst)) = communityBounties s
      \<and> payouts (fst (recordWebhookDelivery False s d ev act repo inst)) = payouts s
      \<and> users (fst (recordWebhookDelivery False s d ev act repo inst)) = users s)
   \<and> (deliveryRecorded s d \<longrightarrow> recordWebhookDelivery False s d ev act repo inst = (s, False))
   \<and> recordWebhookDelivery False (fst (recordWebhookDelivery False s d ev act repo inst)) d ev2 act2 repo2 inst2
       = (fst (recordWebhookDelivery False s d ev act repo inst), False)
   \<and> deliveryRecorded (markWebhookDeliveryCompleted s d') d = deliveryRecorded s d
   \<and> deliveryRecorded (markWebhookDeliveryFailed s d' msg) d = deliveryRecorded s d
   \<and> recordWebhookDelivery True s d ev act repo inst = (s, True)
   \<and> (\<not> falsyStr (signature req) \<and> signatureValid req \<and> payloadInstallationId req \<noteq> Some []
        \<and> deliveryRecorded s (delivery req) \<longrightarrow>
        handleGitHubAppWebhook False s req = (s, Response 200 ''Duplicate delivery ignored'', []))"
proof (intro conjI impI)
  assume n: "\<not> deliveryRecorded s d"
  show "snd (recordWebhookDelivery False s d ev act repo inst) = True"
    using n by (simp add: record_first)
  show "communityBounties (fst (recordWebhookDelivery False s d ev act repo inst)) = communityBounties s"
    using n by (simp add: record_first)
  show "payouts (fst (recordWebhookDelivery False s d ev act repo inst)) = payouts s"
    using n by (simp add: record_first)
  show "users (fst (recordWebhookDelivery False s d ev act repo inst)) = users s"
    using n by (simp add: record_first)
next
  show "deliveryRecorded (fst (recordWebhookDelivery False s d ev act repo inst)) d"
    by (rule record_first_recorded)
next
  assume "deliveryRecorded s d"
  then show "recordWebhookDelivery False s d ev act repo inst = (s, False)"
    by (rule record_duplicate)
next
  show "recordWebhookDelivery False (fst (recordWebhookDelivery False s d ev act repo inst)) d ev2 act2 repo2 inst2
       = (fst (recordWebhookDelivery False s d ev act repo inst), False)"
    by (rule record_duplicate [OF record_first_recorded])
next
  show "deliveryRecorded (markWebhookDeliveryCompleted s d') d = deliveryRecorded s d"
    by (rule recorded_markCompleted)
next
  show "deliveryRecorded (markWebhookDeliveryFailed s d' msg) d = deliveryRecorded s d"
    by (rule recorded_markFailed)
next
  show "recordWebhookDelivery True s d ev act repo inst = (s, True)"
    by (rule record_fail_open)
next
  assume "\<not> falsyStr (signature req) \<and> signatureValid req \<and> payloadInstallationId req \<noteq> Some []
        \<and> deliveryRecorded s (delivery req)"
  then show "handleGitHubAppWebhook False s req = (s, Response 200 ''Duplicate delivery ignored'', [])"
    by (simp add: handler_duplicate)
qed

text \<open>
  Claim C2 as stated fails when the insert raises: the delivery \<^verbatim>\<open>abc-123\<close> is recorded
  by a first call that returns true, and a later call with the same id whose insert
  raises returns true again; the handler then starts the issue-closed processing a
  second time for the same delivery.
\<close>

theorem recordWebhookDelivery_fail_open_counterexample:
  "snd (recordWebhookDelivery False emptyStore ''abc-123'' ''issues'' (Some ''closed'') (Some ''123'') (Some ''456'')) = True
   \<and> snd (recordWebhookDelivery True
            (fst (recordWebhookDelivery False emptyStore ''abc-123'' ''issues'' (Some ''closed'') (Some ''123'') (Some ''456'')))
            ''abc-123'' ''issues'' (Some ''closed'') (Some ''123'') (Some ''456'')) = True
   \<and> snd (handleGitHubAppWebhook True
            (fst (handleGitHubAppWebhook False emptyStore issueClosedRequest)) issueClosedRequest)
       = (Response 202 ''Webhook received and Issue Closed processing initiated.'', [IssueClosedScheduled])"
  by (simp add: recordWebhookDelivery_def handleGitHubAppWebhook_def emptyStore_def issueClosedRequest_def
        deliveryRecorded_def falsyStr_def orElse_def Let_def)

text \<open>
  The delivery \<^verbatim>\<open>abc-123\<close> handled twice: the first call records it, the second is
  acknowledged with status 200 and leaves the store as it was.
\<close>

theorem recordWebhookDelivery_idempotent_witness:
  "\<not> deliveryRecorded emptyStore ''abc-123''
   \<and> snd (recordWebhookDelivery False emptyStore ''abc-123'' ''issues'' (Some ''closed'') (Some ''123'') (Some ''456'')) = True
   \<and> deliveryRecorded (fst (handleGitHubAppWebhook False emptyStore issueClosedRequest)) (delivery issueClosedRequest)
   \<and> \<not> falsyStr (signature issueClosedRequest) \<and> signatureValid issueClosedRequest
   \<and> payloadInstallationId issueClosedRequest \<noteq> Some []
   \<and> handleGitHubAppWebhook False (fst (handleGitHubAppWebhook False emptyStore issueClosedRequest)) issueClosedRequest
       = (fst (handleGitHubAppWebhook False emptyStore issueClosedRequest),
          Response 200 ''Duplicate delivery ignored'', [])"
proof -
  have n: "\<not> deliveryRecorded emptyStore ''abc-123''"
    by (simp add: deliveryRecorded_def emptyStore_def)
  have r: "deliveryRecorded (fst (handleGitHubAppWebhook False emptyStore issueClosedRequest)) (delivery issueClosedRequest)"
    by (simp add: recordWebhookDelivery_def handleGitHubAppWebhook_def emptyStore_def issueClosedRequest_def
        deliveryRecorded_def falsyStr_def orElse_def Let_def)
  have q: "\<not> falsyStr (signature issueClosedRequest) \<and> signatureValid issueClosedRequest
   \<and> payloadInstallationId issueClosedRequest \<noteq> Some []"
    by (simp add: issueClosedRequest_def falsyStr_def)
  show ?thesis
    using recordWebhookDelivery_idempotent [of emptyStore "''abc-123''" "''issues''" "Some ''closed''" "Some ''123''" "Some ''456''"
               _ _ _ _ _ _ issueClosedRequest] n
      recordWebhookDelivery_idempotent [of "fst (handleGitHubAppWebhook False emptyStore issueClosedRequest)" _ _ _ _ _
               _ _ _ _ _ _ issueClosedRequest] r q
    by blast
qed

section \<open>Properties of the pay route\<close>

lemma payRoute_cases:
  "payRoute env s req = (s', resp, calls) \<Longrightarrow>
     (s' = s \<and> (\<forall>c \<in> set calls. \<forall>r. createCommunityBounty env c = Returns r \<longrightarrow> routeDbRaises env))
   \<or> (\<exists>uid bid b r. payUser req = Some uid \<and> uid \<noteq> 0 \<and> payId req = Some bid
         \<and> getCommunityBounty s bid = Some b \<and> creatorUserId b = Some uid
         \<and> status b = pending_payment
         \<and> calls = [escrowCallFor uid b]
         \<and> createCommunityBounty env (escrowCallFor uid b) = Returns r
         \<and> \<not> routeDbRaises env
         \<and> s' = s\<lparr>communityBounties := setBounty bid (fundingFields r (routeNow env)) (communityBounties s)\<rparr>
         \<and> resp = Response 200 ''Bounty funded successfully'')"
  by (auto simp: payRoute_def updateCommunityBounty_def falsyNum_def Let_def
           split: option.splits if_splits outcome.splits)

lemma bountyId_fundingFields: "bountyId (fundingFields r tm b) = bountyId b"
  by (simp add: fundingFields_def)

lemma payRoute_success:
  assumes "payUser req = Some uid" and "uid \<noteq> 0" and "payId req = Some bid"
    and "getCommunityBounty s bid = Some b" and "creatorUserId b = Some uid"
    and "status b = pending_payment"
    and "currency b = ''XDC'' \<or> currency b = ''ROXN'' \<or> currency b = ''USDC''"
    and "createCommunityBounty env (escrowCallFor uid b) = Returns r"
    and "\<not> routeDbRaises env"
  shows "payRoute env s req
     = (s\<lparr>communityBounties := setBounty bid (fundingFields r (routeNow env)) (communityBounties s)\<rparr>,
        Response 200 ''Bounty funded successfully'', [escrowCallFor uid b])"
  using assms by (auto simp: payRoute_def updateCommunityBounty_def falsyNum_def)

lemma payRoute_unauthenticated:
  assumes "payUser req = None \<or> payUser req = Some 0"
  shows "payRoute env s req = (s, Response 401 ''Not authenticated'', [])"
  using assms by (auto simp: payRoute_def falsyNum_def)

text \<open>
  What of claim C5 holds. Let the pay route end with store \<open>s'\<close>, response \<open>resp\<close> and the
  chain calls \<open>calls\<close>. If every escrow creation it invoked raised, the store is
  unchanged: the bounty is still \<open>pending_payment\<close> and no escrow transaction hash or
  on-chain id is written. If a bounty that was \<open>pending_payment\<close> is afterwards \<open>funded\<close>,
  or carries another escrow transaction hash or on-chain bounty id, then the one escrow
  creation invoked for it has returned, and the bounty holds exactly the hash and the id
  of what it returned. And when the creator pays a pending bounty in a supported
  currency, the chain call returns and the database write goes through, the bounty is
  funded with status 200.
\<close>

lemma payRoute_writes_only_after_returned_call:
  assumes "payRoute env s req = (s', resp, calls)"
  shows "((\<forall>c \<in> set calls. \<exists>msg. createCommunityBounty env c = Throws msg) \<longrightarrow> s' = s)
       \<and> (\<forall>bid b b'. getCommunityBounty s bid = Some b \<and> status b = pending_payment
              \<and> getCommunityBounty s' bid = Some b'
              \<and> (status b' = funded \<or> escrowTxHash b' \<noteq> escrowTxHash b
                   \<or> blockchainBountyId b' \<noteq> blockchainBountyId b) \<longrightarrow>
              (\<exists>uid r. calls = [escrowCallFor uid b]
                 \<and> createCommunityBounty env (escrowCallFor uid b) = Returns r
                 \<and> b' = fundingFields r (routeNow env) b
                 \<and> status b' = funded
                 \<and> escrowTxHash b' = Some (escrowTx r)
                 \<and> blockchainBountyId b' = Some (escrowBountyId r)
                 \<and> resp = Response 200 ''Bounty funded successfully''))
       \<and> (\<forall>uid bid b r. payUser req = Some uid \<and> uid \<noteq> 0 \<and> payId req = Some bid
              \<and> getCommunityBounty s bid = Some b \<and> creatorUserId b = Some uid
              \<and> status b = pending_payment
              \<and> (currency b = ''XDC'' \<or> currency b = ''ROXN'' \<or> currency b = ''USDC'')
              \<and> createCommunityBounty env (escrowCallFor uid b) = Returns r
              \<and> \<not> routeDbRaises env \<longrightarrow>
              getCommunityBounty s' bid = Some (fundingFields r (routeNow env) b)
              \<and> resp = Response 200 ''Bounty funded successfully'')"
proof (intro conjI allI impI)
  assume "\<forall>c \<in> set calls. \<exists>msg. createCommunityBounty env c = Throws msg"
  then show "s' = s" using payRoute_cases [OF assms] by auto
next
  fix bid b b'
  assume h: "getCommunityBounty s bid = Some b \<and> status b = pending_payment
              \<and> getCommunityBounty s' bid = Some b'
              \<and> (status b' = funded \<or> escrowTxHash b' \<noteq> escrowTxHash b
                   \<or> blockchainBountyId b' \<noteq> blockchainBountyId b)"
  then have "s' \<noteq> s" by auto
  with payRoute_cases [OF assms] obtain uid bid0 b0 r where
    c: "calls = [escrowCallFor uid b0]"
      "createCommunityBounty env (escrowCallFor uid b0) = Returns r"
      "getCommunityBounty s bid0 = Some b0"
      "s' = s\<lparr>communityBounties := setBounty bid0 (fundingFields r (routeNow env)) (communityBounties s)\<rparr>"
      "resp = Response 200 ''Bounty funded successfully''"
    by blast
  have get: "getCommunityBounty s' bid
     = (if bid = bid0 then map_option (fundingFields r (routeNow env)) (getCommunityBounty s bid0)
        else getCommunityBounty s bid)"
    unfolding c(4) by (rule getCommunityBounty_setBounty) (rule bountyId_fundingFields)
  have same: "bid = bid0" using get h by (cases "bid = bid0") auto
  then have b0: "b0 = b" using c(3) h by simp
  have b': "b' = fundingFields r (routeNow env) b" using get same c(3) b0 h by simp
  show "\<exists>uid r. calls = [escrowCallFor uid b]
                 \<and> createCommunityBounty env (escrowCallFor uid b) = Returns r
                 \<and> b' = fundingFields r (routeNow env) b
                 \<and> status b' = funded
                 \<and> escrowTxHash b' = Some (escrowTx r)
                 \<and> blockchainBountyId b' = Some (escrowBountyId r)
                 \<and> resp = Response 200 ''Bounty funded successfully''"
    using c(1,2,5) b0 b' by (intro exI [of _ uid] exI [of _ r]) (simp add: fundingFields_def)
next
  fix uid bid b r
  assume h: "payUser req = Some uid \<and> uid \<noteq> 0 \<and> payId req = Some bid
              \<and> getCommunityBounty s bid = Some b \<and> creatorUserId b = Some uid
              \<and> status b = pending_payment
              \<and> (currency b = ''XDC'' \<or> currency b = ''ROXN'' \<or> currency b = ''USDC'')
              \<and> createCommunityBounty env (escrowCallFor uid b) = Returns r
              \<and> \<not> routeDbRaises env"
  then have run: "payRoute env s req
     = (s\<lparr>communityBounties := setBounty bid (fundingFields r (routeNow env)) (communityBounties s)\<rparr>,
        Response 200 ''Bounty funded successfully'', [escrowCallFor uid b])"
    by (intro payRoute_success) simp_all
  have get: "getCommunityBounty
        (s\<lparr>communityBounties := setBounty bid (fundingFields r (routeNow env)) (communityBounties s)\<rparr>) bid
     = map_option (fundingFields r (routeNow env)) (getCommunityBounty s bid)"
    using getCommunityBounty_setBounty [where f = "fundingFields r (routeNow env)" and s = s and i = bid and j = bid]
    by (simp add: bountyId_fundingFields)
  from run assms have s': "s' = s\<lparr>communityBounties := setBounty bid (fundingFields r (routeNow env)) (communityBounties s)\<rparr>"
    and resp: "resp = Response 200 ''Bounty funded successfully''" by simp_all
  show "getCommunityBounty s' bid = Some (fundingFields r (routeNow env) b)"
    using get h unfolding s' by simp
  show "resp = Response 200 ''Bounty funded successfully''" by (rule resp)
qed

text \<open>
  The creator pays the example bounty: on a chain that returns the result the bounty
  becomes the funded one; on a chain that raises the store stays as it was.
\<close>

lemma payRoute_examples:
  "payRoute exampleRouteEnv (storeWith exampleBounty) examplePayRequest
     = (storeWith fundedBounty, Response 200 ''Bounty funded successfully'', [escrowCallFor 10 exampleBounty])"
  "payRoute failingRouteEnv (storeWith exampleBounty) examplePayRequest
     = (storeWith exampleBounty, Response 500 ''Failed to process payment'', [escrowCallFor 10 exampleBounty])"
  by (simp_all add: payRoute_def examplePayRequest_def falsyNum_def getCommunityBounty_def
        storeWith_def exampleBounty_def fundedBounty_def exampleRouteEnv_def failingRouteEnv_def
        updateCommunityBounty_def setBounty_def fundingFields_def Let_def)

text \<open>
  The route does not depend on what the chain would confirm: it never asks.
\<close>

lemma payRoute_ignores_chain:
  "payRoute (env\<lparr>chainConfirms := confirms\<rparr>) s req = payRoute env s req"
  by (simp add: payRoute_def Let_def split: option.splits outcome.splits)


section \<open>Properties of the relayer\<close>

lemma recordPayout_duplicate:
  assumes "payoutRecorded s (repositoryGithubId p) (issueNumber p)"
  shows "recordPayout s p = (s, Inl PayoutAlreadyRecorded)"
  using assms by (simp add: recordPayout_def)

lemma recordPayout_recorded:
  "payoutRecorded (fst (recordPayout s p)) (repositoryGithubId p) (issueNumber p)"
  by (simp add: recordPayout_def payoutRecorded_def)


text \<open>
  The lookup that the pool path makes before it pays; the relayer does not call it.
\<close>

lemma getPayoutByRepoAndIssue_recorded:
  "(getPayoutByRepoAndIssue s repo issue \<noteq> None) = payoutRecorded s repo issue"
  by (auto simp: getPayoutByRepoAndIssue_def payoutRecorded_def find_None_iff)

text \<open>
  The store's half of claim C3: once a payout is recorded for a settlement key, a second
  \<open>recordPayout\<close> with that key fails and inserts nothing.
\<close>

lemma recordPayout_twice:
  assumes "repositoryGithubId q = repositoryGithubId p" and "issueNumber q = issueNumber p"
  shows "recordPayout (fst (recordPayout s p)) q = (fst (recordPayout s p), Inl PayoutAlreadyRecorded)"
  using recordPayout_recorded [of s p] assms by (simp add: recordPayout_duplicate)

text \<open>The settlement key and the amounts of the row that the relayer records.\<close>

lemma payoutRow_key:
  "repositoryGithubId (payoutRow b claimer wallet r)
     = ''community-'' @ githubRepoOwner b @ ''-'' @ githubRepoName b"
  "issueNumber (payoutRow b claimer wallet r) = githubIssueNumber b"
  by (simp_all add: payoutRow_def Let_def)

lemma payoutRow_claimedBounty:
  "p_baseBountyAmount (payoutRow claimedBounty claimer wallet r) = Finite 100"
  "p_clientFeeAmount (payoutRow claimedBounty claimer wallet r) = Finite (5 / 2)"
  "p_contributorFeeAmount (payoutRow claimedBounty claimer wallet r) = Finite (5 / 2)"
  "p_totalPlatformFee (payoutRow claimedBounty claimer wallet r) = Finite 5"
  "p_contributorPayout (payoutRow claimedBounty claimer wallet r) = Finite (195 / 2)"
proof -
  have "b_baseBountyAmount claimedBounty = Some 100"
    by (simp add: claimedBounty_def fundedBounty_def exampleBounty_def)
  then show "p_baseBountyAmount (payoutRow claimedBounty claimer wallet r) = Finite 100"
    "p_clientFeeAmount (payoutRow claimedBounty claimer wallet r) = Finite (5 / 2)"
    "p_contributorFeeAmount (payoutRow claimedBounty claimer wallet r) = Finite (5 / 2)"
    "p_totalPlatformFee (payoutRow claimedBounty claimer wallet r) = Finite 5"
    "p_contributorPayout (payoutRow claimedBounty claimer wallet r) = Finite (195 / 2)"
    by (simp_all add: payoutRow_def Let_def fees_100)
qed

lemmas relayer_example_defs =
  processClaimedBounty_def getCommunityBounty_def getUserByGithubUsername_def storeWith_def
  claimedBounty_def fundedBounty_def exampleBounty_def exampleUsers_def exampleEnv_def
  verifyPRMergedAndClosesIssue_def exampleGithub_def falsyNum_def falsyStr_def
  recordPayout_def payoutRecorded_def payoutRow_key updateCommunityBounty_def setBounty_def
  markFailedVerification_def Let_def

lemma afterFailedUpdate_store:
  "processClaimedBounty (exampleEnv\<lparr>dbRaises := True\<rparr>) (storeWith claimedBounty) 1
     = ((storeWith claimedBounty)\<lparr>payouts :=
           [payoutRow claimedBounty ''alice'' ''xdc11'' \<lparr> txHash = ''0xpay'', blockNumber = 9 \<rparr>]\<rparr>,
        [(Some 5, ''xdc11'')])"
  by (simp add: relayer_example_defs)

text \<open>
  Claim C3, evaluated where the code departs from it. The relayer processes the claimed
  example bounty; the chain call returns and the payout for the key
  (\<^verbatim>\<open>community-acme-widgets\<close>, 7) is recorded, but the final update of the bounty
  raises, so the bounty stays \<open>claimed\<close>. On the next run \<open>processClaimedBounty\<close> invokes
  the on-chain completion for the same on-chain bounty again: nothing consults the
  payouts before the chain call, and the "already recorded" error of the second
  \<open>recordPayout\<close> is caught and dropped, after which the bounty is marked completed.
\<close>

theorem processClaimedBounty_invokes_ledger_again:
  "snd (processClaimedBounty (exampleEnv\<lparr>dbRaises := True\<rparr>) (storeWith claimedBounty) 1)
     = [(Some 5, ''xdc11'')]
   \<and> payoutRecorded afterFailedUpdate ''community-acme-widgets'' 7
   \<and> map status (communityBounties afterFailedUpdate) = [claimed]
   \<and> snd (processClaimedBounty exampleEnv afterFailedUpdate 1) = [(Some 5, ''xdc11'')]
   \<and> length (payouts (fst (processClaimedBounty exampleEnv afterFailedUpdate 1))) = 1
   \<and> map status (communityBounties (fst (processClaimedBounty exampleEnv afterFailedUpdate 1)))
       = [completed]"
proof -
  have a: "afterFailedUpdate = (storeWith claimedBounty)\<lparr>payouts :=
           [payoutRow claimedBounty ''alice'' ''xdc11'' \<lparr> txHash = ''0xpay'', blockNumber = 9 \<rparr>]\<rparr>"
    by (simp only: afterFailedUpdate_def afterFailedUpdate_store fst_conv)
  have first: "snd (processClaimedBounty (exampleEnv\<lparr>dbRaises := True\<rparr>) (storeWith claimedBounty) 1)
     = [(Some 5, ''xdc11'')]"
    by (simp only: afterFailedUpdate_store snd_conv)
  have recorded: "payoutRecorded afterFailedUpdate ''community-acme-widgets'' 7"
    unfolding a by (simp add: payoutRecorded_def payoutRow_key claimedBounty_def fundedBounty_def
        exampleBounty_def)
  have still: "map status (communityBounties afterFailedUpdate) = [claimed]"
    unfolding a by (simp add: storeWith_def claimedBounty_def)
  have again: "processClaimedBounty exampleEnv afterFailedUpdate 1
     = (afterFailedUpdate\<lparr>communityBounties :=
           [claimedBounty\<lparr> status := completed, payoutTxHash := Some ''0xpay'',
                            payoutExecutedAt := Some 3000,
                            payoutRecipientAddress := Some ''xdc11'' \<rparr>]\<rparr>,
        [(Some 5, ''xdc11'')])"
    unfolding a by (simp add: relayer_example_defs)
  have once: "length (payouts afterFailedUpdate) = 1" unfolding a by simp
  have "snd (processClaimedBounty exampleEnv afterFailedUpdate 1) = [(Some 5, ''xdc11'')]"
    by (simp only: again snd_conv)
  moreover have "length (payouts (fst (processClaimedBounty exampleEnv afterFailedUpdate 1))) = 1"
    using once by (simp only: again fst_conv) simp
  moreover have "map status (communityBounties (fst (processClaimedBounty exampleEnv afterFailedUpdate 1)))
       = [completed]"
    by (simp only: again fst_conv) simp
  ultimately show ?thesis using first recorded still by blast
qed

text \<open>
  A sweep over the store with the claimed example bounty, when everything goes well: one
  on-chain completion, the bounty completed, and a payout of 97.5 recorded.
\<close>

lemma sweep_completes_claimed_bounty:
  "snd (processClaimedBounties exampleEnv (storeWith claimedBounty)) = [(Some 5, ''xdc11'')]
   \<and> map status (communityBounties (fst (processClaimedBounties exampleEnv (storeWith claimedBounty))))
       = [completed]
   \<and> map p_contributorPayout (payouts (fst (processClaimedBounties exampleEnv (storeWith claimedBounty))))
       = [Finite (195 / 2)]"
proof -
  have run: "processClaimedBounty exampleEnv (storeWith claimedBounty) 1
     = ((storeWith claimedBounty)\<lparr>
           payouts := [payoutRow claimedBounty ''alice'' ''xdc11'' \<lparr> txHash = ''0xpay'', blockNumber = 9 \<rparr>],
           communityBounties :=
             [claimedBounty\<lparr> status := completed, payoutTxHash := Some ''0xpay'',
                              payoutExecutedAt := Some 3000,
                              payoutRecipientAddress := Some ''xdc11'' \<rparr>]\<rparr>,
        [(Some 5, ''xdc11'')])"
    by (simp add: relayer_example_defs)
  have queue: "map bountyId (getClaimedCommunityBounties (storeWith claimedBounty)) = [1]"
    by (simp add: getClaimedCommunityBounties_def storeWith_def claimedBounty_def fundedBounty_def
          exampleBounty_def)
  then have "getClaimedCommunityBounties (storeWith claimedBounty) \<noteq> []" by auto
  then have "processClaimedBounties exampleEnv (storeWith claimedBounty)
     = processEach exampleEnv [1] (storeWith claimedBounty, [])"
    using queue by (simp add: processClaimedBounties_def Let_def)
  also have "\<dots> = processClaimedBounty exampleEnv (storeWith claimedBounty) 1"
    by (simp only: processEach.simps run Let_def split_conv append_Nil)
  finally have all: "processClaimedBounties exampleEnv (storeWith claimedBounty)
     = processClaimedBounty exampleEnv (storeWith claimedBounty) 1" .
  show ?thesis by (simp only: all run fst_conv snd_conv) (simp add: payoutRow_claimedBounty)
qed


lemma process_verify_throws:
  assumes "getCommunityBounty s bid = Some b" and "verifiable b"
    and "verify env (githubRepoOwner b) (githubRepoName b) (the (claimedPrNumber b))
           (githubIssueNumber b) (the (githubInstallationId b)) = Throws msg"
  shows "processClaimedBounty env s bid = (s, [])"
  using assms by (simp add: processClaimedBounty_def verifiable_def)






text \<open>
  With the verifier of section 4.4 of the specification, which raises when GitHub cannot
  be reached, an unreachable GitHub leaves the bounty as it is.
\<close>

lemma process_unreachable_github:
  assumes "getCommunityBounty s bid = Some b" and "verifiable b"
    and "verify env = verifyPRMergedAndClosesIssue gh"
    and "gh (githubRepoOwner b) (githubRepoName b) (the (claimedPrNumber b))
           (the (githubInstallationId b)) = Unreachable msg"
  shows "processClaimedBounty env s bid = (s, [])"
  using assms(4) by (intro process_verify_throws [OF assms(1,2), of env msg])
                    (simp add: assms(3) verifyPRMergedAndClosesIssue_def)




text \<open>
  The relayer reads only \<^verbatim>\<open>verified\<close> of a returned result: a verifier that returns a
  timeout as a result that is not verified, instead of raising it, has the bounty marked
  failed as well.
\<close>

lemma returned_timeout_marks_failed:
  "map status (communityBounties
     (fst (processClaimedBounty (refusingEnv ''ETIMEDOUT'') (storeWith claimedBounty) 1)))
     = [failed_verification]"
  by (simp add: relayer_example_defs refusingEnv_def)

section \<open>Properties of the relayer schedule\<close>

text \<open>
  Within one cycle the bounties are processed one after the other: no processing
  interval begins before the one before it has ended.
\<close>

lemma sequential_cycleSchedule: "sequential (cycleSchedule t work)"
proof (induction work arbitrary: t)
  case Nil
  then show ?case by simp
next
  case (Cons w work)
  obtain bid d where w: "w = (bid, d)" by (cases w)
  show ?case
  proof (cases work)
    case Nil
    then show ?thesis using w by simp
  next
    case (Cons w' work')
    obtain bid' d' where w': "w' = (bid', d')" by (cases w')
    have "sequential (cycleSchedule (t + d + 2000) work)" by (rule Cons.IH)
    then show ?thesis using w w' Cons by simp
  qed
qed

text \<open>A cycle lasts at least two seconds per claimed bounty.\<close>

lemma cycleEnd_ge: "t + 2000 * length work \<le> cycleEnd t work"
proof (induction work arbitrary: t)
  case Nil
  then show ?case by simp
next
  case (Cons w work)
  obtain bid d where w: "w = (bid, d)" by (cases w)
  show ?case using Cons.IH [of "t + d + 2000"] w by simp
qed

text \<open>
  Claim C8, evaluated where the code departs from it. With the default interval of
  30000 ms and sixteen claimed bounties, the cycle started at time 0 returns at 32000 ms
  at the earliest (sixteen waits of 2000 ms), and the timer starts the next cycle at
  30000 ms: the second cycle starts while the first is still in progress.
\<close>

theorem relayer_cycles_overlap:
  "cycleStart 30000 0 = 0
   \<and> cycleEnd (cycleStart 30000 0) sixteenClaimed = 32000
   \<and> cycleStart 30000 1 = 30000
   \<and> cyclesOverlap 30000 0 sixteenClaimed"
  by (simp add: cycleStart_def cyclesOverlap_def sixteenClaimed_def)

section \<open>Properties of the command parser\<close>











section \<open>Properties of the escrow contract\<close>

lemma fee_sum_le:
  fixes a p c :: nat
  assumes "p + c \<le> 10000"
  shows "a * p div 10000 + a * c div 10000 \<le> a"
proof -
  have x: "a * p div 10000 * 10000 \<le> a * p" by (rule div_times_less_eq_dividend)
  have y: "a * c div 10000 * 10000 \<le> a * c" by (rule div_times_less_eq_dividend)
  have "a * p + a * c \<le> a * 10000"
    using assms by (metis distrib_left mult_le_mono2)
  with x y have "(a * p div 10000 + a * c div 10000) * 10000 \<le> a * 10000"
    by (simp add: distrib_right)
  then show ?thesis by simp
qed

lemma initialize_rates:
  "initialize roxn usdc rel fc = Inr e \<Longrightarrow> platformFeeRate e = 50 \<and> contributorFeeRate e = 50
     \<and> relayer e = rel \<and> feeCollector e = fc"
  by (auto simp: initialize_def split: if_splits)

lemma completeBounty_success:
  assumes "sender = relayer e" and "escrowStatus (bounties e bid) = ACTIVE"
    and "contributor \<noteq> 0"
    and "escrowExpiresAt (bounties e bid) = 0 \<or> ts \<le> escrowExpiresAt (bounties e bid)"
    and "escrowAmount (bounties e bid) * platformFeeRate e \<le> uint256_max"
    and "escrowAmount (bounties e bid) * contributorFeeRate e \<le> uint256_max"
    and "platformFeeRate e + contributorFeeRate e \<le> 10000"
  shows "completeBounty e sender ts bid contributor =
     Inr (e\<lparr>bounties := (bounties e)(bid := (bounties e bid)\<lparr>escrowStatus := COMPLETED\<rparr>)\<rparr>,
          [(contributor, escrowCurrency (bounties e bid),
              escrowAmount (bounties e bid)
                - escrowAmount (bounties e bid) * platformFeeRate e div 10000
                - escrowAmount (bounties e bid) * contributorFeeRate e div 10000),
           (feeCollector e, escrowCurrency (bounties e bid),
              escrowAmount (bounties e bid) * platformFeeRate e div 10000
                + escrowAmount (bounties e bid) * contributorFeeRate e div 10000)])"
proof -
  let ?a = "escrowAmount (bounties e bid)"
  let ?p = "?a * platformFeeRate e div 10000"
  let ?c = "?a * contributorFeeRate e div 10000"
  have sum: "?p + ?c \<le> ?a" using assms(7) by (rule fee_sum_le)
  then have p: "?p \<le> ?a" and c: "?c \<le> ?a - ?p" by simp_all
  have "?a \<le> ?a * platformFeeRate e \<or> platformFeeRate e = 0" by (cases "platformFeeRate e") simp_all
  then have amax: "?p + ?c \<le> uint256_max"
  proof
    assume "?a \<le> ?a * platformFeeRate e"
    with sum assms(5) show ?thesis by linarith
  next
    assume z: "platformFeeRate e = 0"
    have "?c \<le> ?a * contributorFeeRate e" by (rule div_le_dividend)
    with z assms(6) show ?thesis by simp
  qed
  show ?thesis
    using assms(1-6) p c amax
    by (simp add: completeBounty_def Let_def checkedMul_def checkedSub_def checkedAdd_def)
qed

lemma net_bounds:
  fixes a :: nat
  defines "net \<equiv> a - a * 50 div 10000 - a * 50 div 10000"
  shows "99 * a \<le> 100 * net" and "100 * net < 99 * a + 200"
    and "200 dvd a \<Longrightarrow> 100 * net = 99 * a"
proof -
  have f: "a * 50 div 10000 = a div 200" by (simp add: div_mult2_eq [symmetric])
  have n: "net = a - 2 * (a div 200)" unfolding net_def f by simp
  have le: "200 * (a div 200) \<le> a" by simp
  have gt: "a < 200 * (a div 200) + 200"
    using mod_less_divisor [of 200 a] div_mult_mod_eq [of a 200] by linarith
  show "99 * a \<le> 100 * net" unfolding n using le by linarith
  show "100 * net < 99 * a + 200" unfolding n using le gt by linarith
  show "100 * net = 99 * a" if "200 dvd a"
  proof -
    from that have "200 * (a div 200) = a" by simp
    then show ?thesis unfolding n by linarith
  qed
qed

text \<open>
  The contributor payout that the fee calculator computes in double precision is below
  99% of the base amount.
\<close>

lemma payout_below_base:
  assumes "1 \<le> base" and "base < 2 ^ 256"
  shows "\<exists>p. contributorPayout (calculateBountyFees (Finite base)) = Finite p
           \<and> p < base * (99 / 100)"
proof -
  let ?c = "3602879701896397 / 144115188075855872 :: rat"
  have prod: "base * ?c = 3602879701896397 * base / 144115188075855872" by simp
  have big: "2 * (2::rat) ^ 256 \<le> 2 ^ 900" "(2::rat) ^ 900 \<le> 2 ^ 1000" by simp_all
  have t: "1 / 1000000000 \<le> base * ?c" "base * ?c < 2 ^ 1000"
    unfolding prod using assms big by linarith+
  from nearestDouble_between [OF t] obtain f1 where
    f1: "nearestDouble (base * ?c) = Finite f1"
        "base * ?c - base * ?c / 9007199254740992 \<le> f1"
        "f1 \<le> base * ?c + base * ?c / 9007199254740992" by blast
  have f1b: "base * (24 / 1000) \<le> f1" "f1 \<le> base * (26 / 1000)"
    using f1(2,3) assms(1) unfolding prod by linarith+
  have f1r: "1 / 1000 \<le> f1" "f1 < 2 ^ 900" using f1b assms big by linarith+
  from roundTo8_between [OF f1r] obtain fee where
    fee: "roundTo8 (Finite f1) = Finite fee"
         "f1 * (999 / 1000) - 1 / 100000000 \<le> fee"
         "fee \<le> f1 * (1001 / 1000) + 1 / 100000000" by blast
  have feeb: "base * (23 / 1000) \<le> fee" "fee \<le> base * (27 / 1000)"
    using fee(2,3) f1b assms(1) by linarith+
  define v where "v = base - fee"
  have vb: "base * (973 / 1000) \<le> v" "v \<le> base * (977 / 1000)"
    unfolding v_def using feeb by linarith+
  have d: "1 / 1000000000 \<le> v" "v < 2 ^ 1000" using vb assms big by linarith+
  from nearestDouble_between [OF d] obtain w where
    w: "nearestDouble v = Finite w"
       "v - v / 9007199254740992 \<le> w"
       "w \<le> v + v / 9007199254740992" by blast
  have wb: "base * (97 / 100) \<le> w" "w \<le> base * (978 / 1000)"
    using w(2,3) vb assms(1) by linarith+
  have wr: "1 / 1000 \<le> w" "w < 2 ^ 900" using wb assms big by linarith+
  from roundTo8_between [OF wr] obtain p where
    p: "roundTo8 (Finite w) = Finite p"
       "w * (999 / 1000) - 1 / 100000000 \<le> p"
       "p \<le> w * (1001 / 1000) + 1 / 100000000" by blast
  have "contributorPayout (calculateBountyFees (Finite base)) = Finite p"
    by (simp only: calculateBountyFees_def Let_def literal_0_025 numMul.simps f1(1) fee(1)
          numSub.simps w(1) [unfolded v_def] p(1) fee_breakdown.select_convs)
  moreover have "p < base * (99 / 100)" using p(3) wb(2) assms(1) by linarith
  ultimately show ?thesis by blast
qed

text \<open>
  Claim C10, as amended. With the fee rates that \<open>initialize\<close> sets (50 and 50 basis
  points), a completion by the relayer of an active, unexpired bounty pays the
  contributor the escrowed amount minus the platform fee and the contributor fee, each
  the amount times 50 divided by 10000 and rounded down, and sends the two fees to the
  fee collector. The net payout is at least 99% of the escrowed amount and less than two
  base units above it, and exactly 99% when the amount is a multiple of 200 base units.
  It is more than the contributor payout that the store records: for a base amount of
  at least 1 escrowed at \<open>units\<close> base units per token, with at least the base amount in
  escrow, \<open>contributorPayout\<close> of \<open>calculateBountyFees\<close> is a finite number and the net
  payout exceeds it.
\<close>

theorem completeBounty_net_payout:
  assumes "platformFeeRate e = 50" and "contributorFeeRate e = 50"
    and "sender = relayer e" and "escrowStatus (bounties e bid) = ACTIVE"
    and "contributor \<noteq> 0"
    and "escrowExpiresAt (bounties e bid) = 0 \<or> ts \<le> escrowExpiresAt (bounties e bid)"
    and "escrowAmount (bounties e bid) * 50 \<le> uint256_max"
    and "amt = escrowAmount (bounties e bid)"
    and "net = amt - amt * 50 div 10000 - amt * 50 div 10000"
  shows "completeBounty e sender ts bid contributor =
           Inr (e\<lparr>bounties := (bounties e)(bid := (bounties e bid)\<lparr>escrowStatus := COMPLETED\<rparr>)\<rparr>,
                [(contributor, escrowCurrency (bounties e bid), net),
                 (feeCollector e, escrowCurrency (bounties e bid),
                    amt * 50 div 10000 + amt * 50 div 10000)])
       \<and> 99 * amt \<le> 100 * net \<and> 100 * net < 99 * amt + 200
       \<and> (200 dvd amt \<longrightarrow> 100 * net = 99 * amt)
       \<and> (\<forall>base units. 1 \<le> base \<and> 0 < units \<and> base * of_nat units \<le> of_nat amt \<longrightarrow>
             (\<exists>p. contributorPayout (calculateBountyFees (Finite base)) = Finite p
                  \<and> p * of_nat units < of_nat net))"
proof (intro conjI allI impI)
  show "completeBounty e sender ts bid contributor =
           Inr (e\<lparr>bounties := (bounties e)(bid := (bounties e bid)\<lparr>escrowStatus := COMPLETED\<rparr>)\<rparr>,
                [(contributor, escrowCurrency (bounties e bid), net),
                 (feeCollector e, escrowCurrency (bounties e bid),
                    amt * 50 div 10000 + amt * 50 div 10000)])"
    using completeBounty_success [of sender e bid contributor ts] assms by simp
  show lo: "99 * amt \<le> 100 * net" unfolding assms(9) by (rule net_bounds(1))
  show "100 * net < 99 * amt + 200" unfolding assms(9) by (rule net_bounds(2))
  show "100 * net = 99 * amt" if "200 dvd amt"
    unfolding assms(9) using that by (rule net_bounds(3))
  fix base :: rat and units :: nat
  assume h: "1 \<le> base \<and> 0 < units \<and> base * of_nat units \<le> of_nat amt"
  have u: "(0::rat) < of_nat units" using h by simp
  from lo have "(of_nat (99 * amt) :: rat) \<le> of_nat (100 * net)" by (simp only: of_nat_le_iff)
  then have n: "(99 / 100) * (of_nat amt :: rat) \<le> of_nat net" by simp
  have "(1::rat) \<le> of_nat units" using h by simp
  then have "base * 1 \<le> base * of_nat units" using h by (intro mult_left_mono) simp_all
  moreover have "base * of_nat units \<le> of_nat amt" using h by blast
  ultimately have ba: "base \<le> of_nat amt" by linarith
  have "amt \<le> amt * 50" by simp
  also have "\<dots> \<le> uint256_max" using assms(7,8) by simp
  also have "\<dots> < 2 ^ 256" by (simp add: uint256_max_def)
  finally have "(of_nat amt :: rat) < of_nat (2 ^ 256)" by (simp only: of_nat_less_iff)
  then have "base < 2 ^ 256" using ba by simp
  with payout_below_base [of base] h obtain p where
    p: "contributorPayout (calculateBountyFees (Finite base)) = Finite p" "p < base * (99 / 100)"
    by blast
  have "p * of_nat units < base * (99 / 100) * of_nat units"
    using p(2) u by (simp only: mult_less_cancel_right_pos)
  also have "\<dots> = (99 / 100) * (base * of_nat units)" by simp
  also have "\<dots> \<le> (99 / 100) * of_nat amt" using h by simp
  also note n
  finally have "p * of_nat units < of_nat net" .
  with p(1) show "\<exists>p. contributorPayout (calculateBountyFees (Finite base)) = Finite p
                  \<and> p * of_nat units < of_nat net" by blast
qed

lemmas escrow_defs = escrowWith_def deployedEscrow_def initialize_def createBounty_def
  completeBounty_def checkedAdd_def checkedSub_def checkedMul_def uint256_max_def Let_def

text \<open>
  Claim C10 as stated fails on an amount too small for the fees to bite: of 199 base
  units escrowed, each fee is 199 times 50 divided by 10000, rounded down to 0, and the
  contributor receives all 199, not 99% of them.
\<close>

theorem completeBounty_truncated_fee_counterexample:
  "map_sum id snd (completeBounty (escrowWith 199) 3 200 1 7) = Inr [(7, USDC, 199), (4, USDC, 0)]
   \<and> 100 * 199 \<noteq> 99 * (199::nat)"
  by (simp add: escrow_defs)

text \<open>
  A bounty of 100 USDC: 102.5 USDC are escrowed (102500000 base units of \<open>10\<^sup>-\<^sup>6\<close>), the
  completion pays 101475000 units to the contributor and 1025000 to the fee collector,
  while the store records a contributor payout of 97.5.
\<close>

theorem completeBounty_net_payout_witness:
  "platformFeeRate (escrowWith 102500000) = 50 \<and> contributorFeeRate (escrowWith 102500000) = 50
   \<and> relayer (escrowWith 102500000) = 3
   \<and> escrowStatus (bounties (escrowWith 102500000) 1) = ACTIVE
   \<and> escrowAmount (bounties (escrowWith 102500000) 1) = 102500000
   \<and> map_sum id snd (completeBounty (escrowWith 102500000) 3 200 1 7)
        = Inr [(7, USDC, 101475000), (4, USDC, 1025000)]
   \<and> 100 * 101475000 = 99 * (102500000::nat)
   \<and> contributorPayout (calculateBountyFees (Finite 100)) = Finite (195 / 2)
   \<and> (195 / 2 :: rat) * 1000000 < 101475000"
proof -
  let ?e = "escrowWith 102500000"
  have r: "platformFeeRate ?e = 50" "contributorFeeRate ?e = 50" "(3::address) = relayer ?e"
      "escrowStatus (bounties ?e 1) = ACTIVE" "(7::address) \<noteq> 0"
      "escrowExpiresAt (bounties ?e 1) = 0 \<or> 200 \<le> escrowExpiresAt (bounties ?e 1)"
      "escrowAmount (bounties ?e 1) * 50 \<le> uint256_max"
      "102500000 = escrowAmount (bounties ?e 1)"
      "escrowCurrency (bounties ?e 1) = USDC" "feeCollector ?e = 4"
    by (simp_all add: escrow_defs)
  have n: "(101475000::nat) = 102500000 - 102500000 * 50 div 10000 - 102500000 * 50 div 10000"
    by simp
  have "parseFloat 100 = Finite 100"
    using parseFloat_units [of 10000000000] decimal8_values(1) by simp
  then have p: "contributorPayout (calculateBountyFees (Finite 100)) = Finite (195 / 2)"
    using fees_100 by simp
  note t = completeBounty_net_payout [OF r(1-8) n]
  from t have run: "map_sum id snd (completeBounty ?e 3 200 1 7)
        = Inr [(7, USDC, 101475000), (4, USDC, 1025000)]"
    using r(9,10) by simp
  from t have e: "100 * 101475000 = 99 * (102500000::nat)" by simp
  from t have "(1::rat) \<le> 100 \<and> 0 < (1000000::nat) \<and> (100::rat) * of_nat 1000000 \<le> of_nat 102500000 \<longrightarrow>
             (\<exists>q. contributorPayout (calculateBountyFees (Finite 100)) = Finite q
                  \<and> q * of_nat 1000000 < (of_nat 101475000 :: rat))"
    by blast
  then obtain q where "contributorPayout (calculateBountyFees (Finite 100)) = Finite q"
    "q * of_nat 1000000 < (of_nat 101475000 :: rat)" by auto
  with p have c: "(195 / 2 :: rat) * 1000000 < 101475000" by simp
  from r(1,2,4) r(3) [symmetric] r(8) [symmetric] run e p c show ?thesis by blast
qed

end
